theory Spec2Isabelle
  imports Complex_Main "HOL-Library.Char_ord" "HOL-Library.List_Lexorder"
    "HOL-Library.Product_Lexorder" "HOL-Library.Multiset"
begin

section \<open>SQL values and operators used by the queries\<close>

text \<open>
  The two driver scripts (\<^verbatim>\<open>build_demographic_turnout_all.py\<close> and
  \<^verbatim>\<open>build_demographic_turnout.py\<close>) are Python glue around DuckDB queries. A table is a
  list of rows (a record per table, one field per column), a nullable \<^verbatim>\<open>VARCHAR\<close> is a
  \<open>string option\<close> with \<open>None\<close> for \<^verbatim>\<open>NULL\<close>, and a comparison is three-valued: it yields
  \<open>None\<close> when an operand is \<^verbatim>\<open>NULL\<close>. A \<^verbatim>\<open>WHERE\<close>, \<^verbatim>\<open>ON\<close> or \<^verbatim>\<open>FILTER\<close> clause keeps a row only
  when its condition is true. Strings are byte strings; \<^verbatim>\<open>VARCHAR\<close> comparison is the
  binary one, which is the lexicographic order of \<open>char list\<close>. Row order inside a table
  is the list order; SQL leaves it open, so statements about whole tables are made up to
  that order (as multisets) unless the query sorts.
\<close>

type_synonym varchar = "string option"

definition sql_eq :: "'a option \<Rightarrow> 'a option \<Rightarrow> bool option" where
  "sql_eq a b =
     (case a of None \<Rightarrow> None
      | Some x \<Rightarrow> (case b of None \<Rightarrow> None | Some y \<Rightarrow> Some (x = y)))"

definition sql_neq :: "'a option \<Rightarrow> 'a option \<Rightarrow> bool option" where
  "sql_neq a b =
     (case a of None \<Rightarrow> None
      | Some x \<Rightarrow> (case b of None \<Rightarrow> None | Some y \<Rightarrow> Some (x \<noteq> y)))"

definition sql_and :: "bool option \<Rightarrow> bool option \<Rightarrow> bool option" where
  "sql_and p q =
     (if p = Some False \<or> q = Some False then Some False
      else if p = Some True \<and> q = Some True then Some True
      else None)"

definition is_not_null :: "'a option \<Rightarrow> bool option" where
  "is_not_null a = Some (a \<noteq> None)"

definition sql_true :: "bool option \<Rightarrow> bool" where
  "sql_true p = (p = Some True)"

definition sql_trim :: "string \<Rightarrow> string" where
  "sql_trim s =
     rev (dropWhile (\<lambda>c. c = CHR '' '') (rev (dropWhile (\<lambda>c. c = CHR '' '') s)))"

definition lower_char :: "char \<Rightarrow> char" where
  "lower_char c =
     (if CHR ''A'' \<le> c \<and> c \<le> CHR ''Z'' then char_of (of_char c + (32::nat)) else c)"

definition sql_lower :: "string \<Rightarrow> string" where
  "sql_lower s = map lower_char s"

text \<open>\<^verbatim>\<open>SUM\<close> over no rows is \<^verbatim>\<open>NULL\<close>; division by zero is \<^verbatim>\<open>NULL\<close> in DuckDB.\<close>

definition sql_sum :: "int list \<Rightarrow> int option" where
  "sql_sum xs = (if xs = [] then None else Some (sum_list xs))"

definition sql_div :: "rat \<Rightarrow> rat \<Rightarrow> rat option" where
  "sql_div a b = (if b = 0 then None else Some (a / b))"

text \<open>
  \<^verbatim>\<open>ORDER BY c\<close> is ascending with \<^verbatim>\<open>NULL\<close> after every value (DuckDB's default, which the
  scripts do not change): the sort key of a nullable column.
\<close>

definition nulls_last :: "varchar \<Rightarrow> nat \<times> string" where
  "nulls_last c = (case c of None \<Rightarrow> (1, []) | Some s \<Rightarrow> (0, s))"

text \<open>\<^verbatim>\<open>GROUP BY\<close>: one group per distinct key; \<^verbatim>\<open>NULL\<close> keys group together.\<close>

definition group_by :: "('r \<Rightarrow> 'k) \<Rightarrow> 'r list \<Rightarrow> ('k \<times> 'r list) list" where
  "group_by key rows =
     map (\<lambda>k. (k, filter (\<lambda>r. key r = k) rows)) (remdups (map key rows))"

text \<open>
  \<^verbatim>\<open>a LEFT JOIN b ON cond\<close>: every row of \<open>a\<close> with each row of \<open>b\<close> that satisfies the
  condition, or once with \<^verbatim>\<open>NULL\<close>s when none does.
\<close>

definition left_join :: "('a \<Rightarrow> 'b \<Rightarrow> bool) \<Rightarrow> 'a list \<Rightarrow> 'b list \<Rightarrow> ('a \<times> 'b option) list" where
  "left_join cond xs ys =
     concat (map (\<lambda>x. if filter (cond x) ys = [] then [(x, None)]
                      else map (\<lambda>y. (x, Some y)) (filter (cond x) ys)) xs)"

section \<open>Tables\<close>

text \<open>\<^verbatim>\<open>ncvhis_raw\<close> and \<^verbatim>\<open>ncvhis_election\<close>: the vote-event log. The \<^verbatim>\<open>WHERE\<close> clause of
  \<^verbatim>\<open>ncvhis_raw\<close> leaves no \<^verbatim>\<open>NULL\<close> in \<^verbatim>\<open>election_lbl\<close> and \<^verbatim>\<open>ncid\<close>; \<^verbatim>\<open>county_desc\<close> may be \<^verbatim>\<open>NULL\<close>.\<close>

record ncvhis_row =
  h_county_desc :: varchar
  h_election_lbl :: string
  h_ncid :: string

text \<open>\<^verbatim>\<open>voted_ncids\<close>: the deduplicated vote events.\<close>

record voted_ncid_row =
  voted_county_desc :: varchar
  v_ncid :: string

text \<open>\<^verbatim>\<open>ncvoter_attrs\<close>: the registry; \<^verbatim>\<open>ncid\<close> is not \<^verbatim>\<open>NULL\<close> by its \<^verbatim>\<open>WHERE\<close> clause.\<close>

record ncvoter_attrs_row =
  a_ncid :: string
  reg_county_desc :: varchar
  a_party_cd :: varchar
  a_race_code :: varchar
  a_ethnic_code :: varchar
  a_sex_code :: varchar
  a_birth_year :: varchar

text \<open>\<^verbatim>\<open>voted_joined\<close>: vote events with the registry's columns, \<^verbatim>\<open>NULL\<close> where unmatched.\<close>

record voted_joined_row =
  j_voted_county_desc :: varchar
  j_reg_county_desc :: varchar
  j_ncid :: string
  j_party_cd :: varchar
  j_race_code :: varchar
  j_ethnic_code :: varchar
  j_sex_code :: varchar
  j_birth_year :: varchar

text \<open>\<^verbatim>\<open>voted_clean\<close> and \<^verbatim>\<open>voted_with_age\<close>.\<close>

record voted_clean_row =
  c_county_desc :: varchar
  c_party_cd :: varchar
  c_race_code :: varchar
  c_ethnic_code :: varchar
  c_sex_code :: varchar
  c_birth_year :: varchar

record voted_with_age_row =
  w_county_desc :: varchar
  w_party_cd :: varchar
  w_race_code :: varchar
  w_ethnic_code :: varchar
  w_sex_code :: varchar
  w_age_group :: varchar

text \<open>The seven grouping columns shared by numerator and denominator.\<close>

record bucket_key =
  election_date :: varchar
  county_desc :: varchar
  party_cd :: varchar
  race_code :: varchar
  ethnic_code :: varchar
  sex_code :: varchar
  age_group :: varchar

text \<open>\<^verbatim>\<open>voter_stats_raw\<close>: the census rows of one file whose count parsed
  (\<^verbatim>\<open>TRY_CAST(...) IS NOT NULL\<close>), so \<^verbatim>\<open>total_voters\<close> is never \<^verbatim>\<open>NULL\<close>.\<close>

record voter_stats_raw_row =
  s_county_desc :: varchar
  election_date_raw :: varchar
  stats_type :: varchar
  s_party_cd :: varchar
  s_race_code :: varchar
  s_ethnic_code :: varchar
  s_sex_code :: varchar
  s_age_group :: varchar
  total_voters :: int

record denominator_row =
  d_key :: bucket_key
  registered_count :: int

record voted_aggregated_row =
  n_key :: bucket_key
  voted_count :: int

record turnout_row =
  t_key :: bucket_key
  t_registered_count :: int
  t_voted_count :: int
  turnout_rate :: "rat option"

text \<open>One row of the QA summary (\<^verbatim>\<open>qa_rows.append((...))\<close>).\<close>

record qa_row =
  qa_election_date :: string
  qa_election_lbl :: string
  total_voted_ncids :: int
  join_mismatches_dropped :: int
  join_mismatch_rate :: rat
  county_mismatches_kept :: int
  county_mismatch_rate :: rat

section \<open>The per-election queries\<close>

text \<open>\<^verbatim>\<open>ncvhis_election\<close>: \<^verbatim>\<open>WHERE election_lbl = ?\<close>.\<close>

definition ncvhis_election :: "string \<Rightarrow> ncvhis_row list \<Rightarrow> ncvhis_row list" where
  "ncvhis_election election_mmddyyyy ncvhis_raw =
     filter (\<lambda>r. h_election_lbl r = election_mmddyyyy) ncvhis_raw"

text \<open>
  \<^verbatim>\<open>voted_ncids\<close>: \<^verbatim>\<open>row_number() OVER (PARTITION BY ncid ORDER BY county_desc)\<close>, then
  \<^verbatim>\<open>WHERE rn = 1\<close>. Each partition is sorted by \<^verbatim>\<open>county_desc\<close>; the row numbered 1 is the
  first of the sorted partition. The sort is the stable insertion sort, so among rows with
  equal \<^verbatim>\<open>county_desc\<close> the one that comes first in the input list is numbered 1: the
  engine's free choice among tied rows is the choice of the input's row order.
\<close>

definition rn_1 :: "ncvhis_row list \<Rightarrow> ncvhis_row list" where
  "rn_1 part = take 1 (sort_key (\<lambda>r. nulls_last (h_county_desc r)) part)"

definition dedup_row :: "ncvhis_row \<Rightarrow> voted_ncid_row" where
  "dedup_row r = \<lparr>voted_county_desc = h_county_desc r, v_ncid = h_ncid r\<rparr>"

definition voted_ncids :: "ncvhis_row list \<Rightarrow> voted_ncid_row list" where
  "voted_ncids election_rows =
     concat (map (\<lambda>(k, part). map dedup_row (rn_1 part)) (group_by h_ncid election_rows))"

text \<open>Reading a \<^verbatim>\<open>voted_ncids\<close> table as vote events of one election again, to run the
  deduplicator on its own output.\<close>

definition as_election_rows :: "string \<Rightarrow> voted_ncid_row list \<Rightarrow> ncvhis_row list" where
  "as_election_rows lbl vs =
     map (\<lambda>v. \<lparr>h_county_desc = voted_county_desc v, h_election_lbl = lbl, h_ncid = v_ncid v\<rparr>) vs"

text \<open>\<^verbatim>\<open>voted_joined\<close>: \<^verbatim>\<open>voted_ncids v LEFT JOIN ncvoter_attrs a ON v.ncid = a.ncid\<close>.\<close>

definition joined_row :: "voted_ncid_row \<Rightarrow> ncvoter_attrs_row option \<Rightarrow> voted_joined_row" where
  "joined_row v m =
     \<lparr>j_voted_county_desc = voted_county_desc v,
      j_reg_county_desc = (case m of None \<Rightarrow> None | Some a \<Rightarrow> reg_county_desc a),
      j_ncid = v_ncid v,
      j_party_cd = (case m of None \<Rightarrow> None | Some a \<Rightarrow> a_party_cd a),
      j_race_code = (case m of None \<Rightarrow> None | Some a \<Rightarrow> a_race_code a),
      j_ethnic_code = (case m of None \<Rightarrow> None | Some a \<Rightarrow> a_ethnic_code a),
      j_sex_code = (case m of None \<Rightarrow> None | Some a \<Rightarrow> a_sex_code a),
      j_birth_year = (case m of None \<Rightarrow> None | Some a \<Rightarrow> a_birth_year a)\<rparr>"

definition voted_joined ::
  "voted_ncid_row list \<Rightarrow> ncvoter_attrs_row list \<Rightarrow> voted_joined_row list" where
  "voted_joined vs attrs =
     map (\<lambda>(v, m). joined_row v m) (left_join (\<lambda>v a. v_ncid v = a_ncid a) vs attrs)"

text \<open>The QA counts: \<^verbatim>\<open>COUNT(*)\<close> and the two \<^verbatim>\<open>COUNT(*) FILTER (WHERE ...)\<close>.\<close>

definition total_voted :: "voted_joined_row list \<Rightarrow> int" where
  "total_voted vj = int (length vj)"

definition join_mismatches :: "voted_joined_row list \<Rightarrow> int" where
  "join_mismatches vj = int (length (filter (\<lambda>r. j_reg_county_desc r = None) vj))"

definition county_mismatches :: "voted_joined_row list \<Rightarrow> int" where
  "county_mismatches vj =
     int (length (filter (\<lambda>r. sql_true (sql_and (is_not_null (j_reg_county_desc r))
                                    (sql_neq (j_voted_county_desc r) (j_reg_county_desc r)))) vj))"

text \<open>
  The exceptions the driver can end with: Python's, and DuckDB's \<^verbatim>\<open>ConversionException\<close> and
  \<^verbatim>\<open>InvalidInputException\<close>. Python's \<^verbatim>\<open>a / b\<close> on integers raises \<^verbatim>\<open>ZeroDivisionError\<close> when \<open>b\<close> is 0. The quotient is a
  float in Python; here it is the exact rational it rounds.
\<close>

datatype py_error =
    SystemExit string | ValueError | IndexError | ZeroDivisionError
  | ConversionException | InvalidInputException

definition py_truediv :: "int \<Rightarrow> int \<Rightarrow> py_error + rat" where
  "py_truediv a b = (if b = 0 then Inl ZeroDivisionError else Inr (of_int a / of_int b))"

definition join_mismatch_rate_of :: "voted_joined_row list \<Rightarrow> py_error + rat" where
  "join_mismatch_rate_of vj =
     (if total_voted vj \<noteq> 0 then py_truediv (join_mismatches vj) (total_voted vj) else Inr 0)"

definition county_mismatch_rate_of :: "voted_joined_row list \<Rightarrow> py_error + rat" where
  "county_mismatch_rate_of vj =
     (if total_voted vj - join_mismatches vj \<noteq> 0
      then py_truediv (county_mismatches vj) (total_voted vj - join_mismatches vj)
      else Inr 0)"

definition qa_of :: "string \<Rightarrow> string \<Rightarrow> voted_joined_row list \<Rightarrow> py_error + qa_row" where
  "qa_of election_iso election_mmddyyyy vj =
     (case join_mismatch_rate_of vj of
        Inl e \<Rightarrow> Inl e
      | Inr jr \<Rightarrow>
          (case county_mismatch_rate_of vj of
             Inl e \<Rightarrow> Inl e
           | Inr cr \<Rightarrow>
               Inr \<lparr>qa_election_date = election_iso,
                    qa_election_lbl = election_mmddyyyy,
                    total_voted_ncids = total_voted vj,
                    join_mismatches_dropped = join_mismatches vj,
                    join_mismatch_rate = jr,
                    county_mismatches_kept = county_mismatches vj,
                    county_mismatch_rate = cr\<rparr>))"

text \<open>\<^verbatim>\<open>voted_clean\<close>: \<^verbatim>\<open>WHERE reg_county_desc IS NOT NULL\<close>, county taken from the registry.\<close>

definition voted_clean :: "voted_joined_row list \<Rightarrow> voted_clean_row list" where
  "voted_clean vj =
     map (\<lambda>r. \<lparr>c_county_desc = j_reg_county_desc r,
               c_party_cd = j_party_cd r,
               c_race_code = j_race_code r,
               c_ethnic_code = j_ethnic_code r,
               c_sex_code = j_sex_code r,
               c_birth_year = j_birth_year r\<rparr>)
       (filter (\<lambda>r. j_reg_county_desc r \<noteq> None) vj)"

text \<open>
  The \<^verbatim>\<open>CASE\<close> of \<^verbatim>\<open>voted_with_age\<close>. \<^verbatim>\<open>TRY_CAST(s AS INTEGER)\<close> is DuckDB's, not this
  repository's: it is the parameter \<open>try_cast\<close> (\<open>None\<close> where the cast fails). The
  difference of the years is taken in the integers.
\<close>

definition age_group_case :: "(string \<Rightarrow> int option) \<Rightarrow> int \<Rightarrow> varchar \<Rightarrow> string" where
  "age_group_case try_cast election_year birth_year =
     (case birth_year of
        None \<Rightarrow> ''Age < 18 Or Invalid Birth Dates''
      | Some b \<Rightarrow>
          if length (sql_trim b) = 0 then ''Age < 18 Or Invalid Birth Dates''
          else
            (case try_cast (sql_trim b) of
               None \<Rightarrow> ''Age < 18 Or Invalid Birth Dates''
             | Some y \<Rightarrow>
                 if election_year - y < 18 then ''Age < 18 Or Invalid Birth Dates''
                 else if 18 \<le> election_year - y \<and> election_year - y \<le> 25 then ''Age 18 - 25''
                 else if 26 \<le> election_year - y \<and> election_year - y \<le> 40 then ''Age 26 - 40''
                 else if 41 \<le> election_year - y \<and> election_year - y \<le> 65 then ''Age 41 - 65''
                 else ''Age Over 66''))"

definition voted_with_age ::
  "(string \<Rightarrow> int option) \<Rightarrow> int \<Rightarrow> voted_clean_row list \<Rightarrow> voted_with_age_row list" where
  "voted_with_age try_cast election_year vc =
     map (\<lambda>r. \<lparr>w_county_desc = c_county_desc r,
               w_party_cd = c_party_cd r,
               w_race_code = c_race_code r,
               w_ethnic_code = c_ethnic_code r,
               w_sex_code = c_sex_code r,
               w_age_group = Some (age_group_case try_cast election_year (c_birth_year r))\<rparr>) vc"

text \<open>\<^verbatim>\<open>voted_aggregated\<close>: \<^verbatim>\<open>COUNT(*) ... GROUP BY 1,2,3,4,5,6,7\<close>.\<close>

definition numerator_key :: "string \<Rightarrow> voted_with_age_row \<Rightarrow> bucket_key" where
  "numerator_key election_iso r =
     \<lparr>election_date = Some election_iso,
      county_desc = w_county_desc r,
      party_cd = w_party_cd r,
      race_code = w_race_code r,
      ethnic_code = w_ethnic_code r,
      sex_code = w_sex_code r,
      age_group = w_age_group r\<rparr>"

definition voted_aggregated :: "string \<Rightarrow> voted_with_age_row list \<Rightarrow> voted_aggregated_row list" where
  "voted_aggregated election_iso wa =
     map (\<lambda>(k, rows). \<lparr>n_key = k, voted_count = int (length rows)\<rparr>)
       (group_by (numerator_key election_iso) wa)"

text \<open>\<^verbatim>\<open>voter_stats_denominator\<close>: the census rows of the election with
  \<^verbatim>\<open>lower(stats_type) = 'voter'\<close>, summed per key.\<close>

definition denominator_key :: "string \<Rightarrow> voter_stats_raw_row \<Rightarrow> bucket_key" where
  "denominator_key election_iso r =
     \<lparr>election_date = Some election_iso,
      county_desc = s_county_desc r,
      party_cd = s_party_cd r,
      race_code = s_race_code r,
      ethnic_code = s_ethnic_code r,
      sex_code = s_sex_code r,
      age_group = s_age_group r\<rparr>"

definition voter_stats_denominator ::
  "string \<Rightarrow> string \<Rightarrow> voter_stats_raw_row list \<Rightarrow> denominator_row list" where
  "voter_stats_denominator election_iso election_mmddyyyy raw =
     map (\<lambda>(k, rows). \<lparr>d_key = k, registered_count = sum_list (map total_voters rows)\<rparr>)
       (group_by (denominator_key election_iso)
          (filter (\<lambda>r. sql_true (sql_and (sql_eq (election_date_raw r) (Some election_mmddyyyy))
                                   (sql_eq (map_option sql_lower (stats_type r)) (Some ''voter''))))
             raw))"

text \<open>The \<^verbatim>\<open>ON\<close> condition of the reconciling joins: equality on all seven columns.\<close>

definition key_match :: "bucket_key \<Rightarrow> bucket_key \<Rightarrow> bool" where
  "key_match d v =
     sql_true
       (sql_and (sql_eq (election_date d) (election_date v))
       (sql_and (sql_eq (county_desc d) (county_desc v))
       (sql_and (sql_eq (party_cd d) (party_cd v))
       (sql_and (sql_eq (race_code d) (race_code v))
       (sql_and (sql_eq (ethnic_code d) (ethnic_code v))
       (sql_and (sql_eq (sex_code d) (sex_code v))
                (sql_eq (age_group d) (age_group v))))))))"

text \<open>\<^verbatim>\<open>turnout_buckets\<close>: the denominator left-joined to the numerator.\<close>

definition turnout_of :: "denominator_row \<times> voted_aggregated_row option \<Rightarrow> turnout_row" where
  "turnout_of p =
     (case p of (d, m) \<Rightarrow>
        \<lparr>t_key = d_key d,
         t_registered_count = registered_count d,
         t_voted_count = (case m of None \<Rightarrow> 0 | Some v \<Rightarrow> voted_count v),
         turnout_rate =
           (if registered_count d = 0 then None
            else sql_div (of_int (case m of None \<Rightarrow> 0 | Some v \<Rightarrow> voted_count v) * 1)
                   (of_int (registered_count d)))\<rparr>)"

definition turnout_buckets ::
  "denominator_row list \<Rightarrow> voted_aggregated_row list \<Rightarrow> turnout_row list" where
  "turnout_buckets den agg =
     map turnout_of (left_join (\<lambda>d v. key_match (d_key d) (n_key v)) den agg)"

text \<open>
  \<^verbatim>\<open>missing_votes\<close> of the single-election driver: the numerator left-joined to the
  denominator, \<^verbatim>\<open>WHERE d.county_desc IS NULL\<close>, summed.
\<close>

definition missing_votes :: "voted_aggregated_row list \<Rightarrow> denominator_row list \<Rightarrow> int option" where
  "missing_votes agg den =
     sql_sum (map (\<lambda>(v, m). voted_count v)
       (filter (\<lambda>(v, m). (case m of None \<Rightarrow> True | Some d \<Rightarrow> county_desc (d_key d) = None))
          (left_join (\<lambda>v d. key_match (d_key d) (n_key v)) agg den)))"

section \<open>The multi-election driver\<close>

text \<open>
  The driver handles file names with Python's text built-ins \<^verbatim>\<open>len\<close>, \<^verbatim>\<open>str.isdigit\<close>, slicing
  and \<^verbatim>\<open>int\<close>. They work on the characters of a \<^verbatim>\<open>str\<close>, with Unicode's notion of a digit,
  and are Python's, not this repository's: they are the parameter \<open>py\<close>. A string here is
  the UTF-8 bytes of the text, on which \<^verbatim>\<open>split\<close>, \<^verbatim>\<open>replace\<close> and \<^verbatim>\<open>Path.name\<close> with their
  ASCII arguments, and the order of \<^verbatim>\<open>sorted\<close>, are the same as on characters.
\<close>

record py_text =
  py_len :: "string \<Rightarrow> nat"
  py_isdigit :: "string \<Rightarrow> bool"
  py_slice :: "string \<Rightarrow> nat \<Rightarrow> nat \<Rightarrow> string"
  py_int :: "string \<Rightarrow> py_error + int"

text \<open>\<^verbatim>\<open>y = s[0:4]\<close>, \<^verbatim>\<open>m = s[4:6]\<close>, \<^verbatim>\<open>d = s[6:8]\<close>, then \<^verbatim>\<open>f"{m}/{d}/{y}"\<close>.\<close>

definition yyyymmdd_to_mmddyyyy :: "py_text \<Rightarrow> string \<Rightarrow> string" where
  "yyyymmdd_to_mmddyyyy py s =
     py_slice py s 4 6 @ ''/'' @ py_slice py s 6 8 @ ''/'' @ py_slice py s 0 4"

fun py_split :: "char \<Rightarrow> string \<Rightarrow> string list" where
  "py_split sep [] = [[]]"
| "py_split sep (c # cs) =
     (if c = sep then [] # py_split sep cs
      else (case py_split sep cs of [] \<Rightarrow> [[c]] | p # ps \<Rightarrow> (c # p) # ps))"

definition zfill :: "py_text \<Rightarrow> nat \<Rightarrow> string \<Rightarrow> string" where
  "zfill py width s =
     (if width \<le> py_len py s then s
      else (case s of
              [] \<Rightarrow> replicate width CHR ''0''
            | c # cs \<Rightarrow>
                if c = CHR ''+'' \<or> c = CHR ''-''
                then c # replicate (width - py_len py s) CHR ''0'' @ cs
                else replicate (width - py_len py s) CHR ''0'' @ s))"

text \<open>\<^verbatim>\<open>m, d, y = mmddyyyy.split("/")\<close> raises \<^verbatim>\<open>ValueError\<close> unless there are three parts.\<close>

definition mmddyyyy_to_iso :: "py_text \<Rightarrow> string \<Rightarrow> py_error + string" where
  "mmddyyyy_to_iso py mmddyyyy =
     (case py_split CHR ''/'' mmddyyyy of
        [m, d, y] \<Rightarrow> Inr (y @ ''-'' @ zfill py 2 m @ ''-'' @ zfill py 2 d)
      | _ \<Rightarrow> Inl ValueError)"

text \<open>\<^verbatim>\<open>s.replace(old, new)\<close>: every occurrence of \<open>old\<close>, left to right, not overlapping.\<close>

function py_replace :: "string \<Rightarrow> string \<Rightarrow> string \<Rightarrow> string" where
  "py_replace old new s =
     (if old = [] then new @ concat (map (\<lambda>c. c # new) s)
      else (case s of
              [] \<Rightarrow> []
            | c # cs \<Rightarrow>
                if take (length old) s = old
                then new @ py_replace old new (drop (length old) s)
                else c # py_replace old new cs))"
  by pat_completeness auto
termination
  by (relation "measure (\<lambda>(old, new, s). length s)") (auto simp: neq_Nil_conv)

declare py_replace.simps [simp del]

text \<open>\<^verbatim>\<open>Path(p).name\<close> for a POSIX path: the last component, empty and \<^verbatim>\<open>.\<close> components
  dropped.\<close>

definition path_name :: "string \<Rightarrow> string" where
  "path_name p =
     (case rev (filter (\<lambda>c. c \<noteq> [] \<and> c \<noteq> ''.'') (py_split CHR ''/'' p)) of
        [] \<Rightarrow> []
      | c # cs \<Rightarrow> c)"

text \<open>The lines the driver prints, and what it accumulates across elections.\<close>

datatype log_line =
    Warn_skipping string
  | Info_building string string
  | Info_voted int
  | Info_join_mismatches int rat
  | Info_county_mismatches int rat
  | Ok_wrote_combined
  | Ok_wrote_qa

record run_state =
  turnout_all :: "turnout_row list"
  qa_rows :: "qa_row list"
  printed :: "log_line list"

text \<open>The tables loaded once, and the census table read from each file.\<close>

record database =
  ncvhis_raw :: "ncvhis_row list"
  ncvoter_attrs :: "ncvoter_attrs_row list"
  voter_stats_raw :: "string \<Rightarrow> voter_stats_raw_row list"

text \<open>The token the loop takes from a file name, and its test.\<close>

definition yyyymmdd_of :: "string \<Rightarrow> string" where
  "yyyymmdd_of voter_stats_path =
     py_replace ''.txt'' [] (py_replace ''voter_stats_'' [] (path_name voter_stats_path))"

definition unrecognized :: "py_text \<Rightarrow> string \<Rightarrow> bool" where
  "unrecognized py voter_stats_path =
     (py_len py (yyyymmdd_of voter_stats_path) \<noteq> 8 \<or>
      \<not> py_isdigit py (yyyymmdd_of voter_stats_path))"

text \<open>The body of the loop after the name test: one election's tables.\<close>

definition election_buckets ::
  "(string \<Rightarrow> int option) \<Rightarrow> database \<Rightarrow> string \<Rightarrow> string \<Rightarrow> string \<Rightarrow> int \<Rightarrow> turnout_row list" where
  "election_buckets try_cast db voter_stats_path election_iso election_mmddyyyy election_year =
     turnout_buckets
       (voter_stats_denominator election_iso election_mmddyyyy (voter_stats_raw db voter_stats_path))
       (voted_aggregated election_iso
          (voted_with_age try_cast election_year
             (voted_clean
                (voted_joined (voted_ncids (ncvhis_election election_mmddyyyy (ncvhis_raw db)))
                   (ncvoter_attrs db)))))"

text \<open>
  \<^verbatim>\<open>INSERT INTO turnout_all SELECT * FROM turnout_buckets\<close>: the column \<^verbatim>\<open>registered_count\<close> of
  \<^verbatim>\<open>turnout_all\<close> is a \<^verbatim>\<open>BIGINT\<close>, and the insert raises when a bucket's sum does not fit.
\<close>

definition in_bigint :: "int \<Rightarrow> bool" where
  "in_bigint n = (- 9223372036854775808 \<le> n \<and> n \<le> 9223372036854775807)"

definition build_election ::
  "(string \<Rightarrow> int option) \<Rightarrow> database \<Rightarrow> string \<Rightarrow> string \<Rightarrow> string \<Rightarrow> int \<Rightarrow> run_state
     \<Rightarrow> py_error + run_state" where
  "build_election try_cast db voter_stats_path election_iso election_mmddyyyy election_year st =
     (case qa_of election_iso election_mmddyyyy
             (voted_joined (voted_ncids (ncvhis_election election_mmddyyyy (ncvhis_raw db)))
                (ncvoter_attrs db)) of
        Inl e \<Rightarrow> Inl e
      | Inr qa \<Rightarrow>
          if list_all (\<lambda>t. in_bigint (t_registered_count t))
               (election_buckets try_cast db voter_stats_path election_iso election_mmddyyyy
                  election_year)
          then
            Inr \<lparr>turnout_all = turnout_all st @
                   election_buckets try_cast db voter_stats_path election_iso election_mmddyyyy
                     election_year,
                 qa_rows = qa_rows st @ [qa],
                 printed = printed st @
                   [Info_building election_iso (path_name voter_stats_path),
                    Info_voted (total_voted_ncids qa),
                    Info_join_mismatches (join_mismatches_dropped qa) (join_mismatch_rate qa),
                    Info_county_mismatches (county_mismatches_kept qa) (county_mismatch_rate qa)]\<rparr>
          else Inl ConversionException)"

definition election_step ::
  "py_text \<Rightarrow> (string \<Rightarrow> int option) \<Rightarrow> database \<Rightarrow> run_state \<Rightarrow> string
     \<Rightarrow> py_error + run_state" where
  "election_step py try_cast db st voter_stats_path =
     (if py_len py (yyyymmdd_of voter_stats_path) \<noteq> 8 \<or>
         \<not> py_isdigit py (yyyymmdd_of voter_stats_path)
      then Inr (st\<lparr>printed := printed st @ [Warn_skipping (path_name voter_stats_path)]\<rparr>)
      else
        (case mmddyyyy_to_iso py (yyyymmdd_to_mmddyyyy py (yyyymmdd_of voter_stats_path)) of
           Inl e \<Rightarrow> Inl e
         | Inr election_iso \<Rightarrow>
             (case py_split CHR ''-'' election_iso of
                [] \<Rightarrow> Inl IndexError
              | y # ys \<Rightarrow>
                  (case py_int py y of
                     Inl e \<Rightarrow> Inl e
                   | Inr election_year \<Rightarrow>
                       build_election try_cast db voter_stats_path election_iso
                         (yyyymmdd_to_mmddyyyy py (yyyymmdd_of voter_stats_path))
                         election_year st))))"

fun run_elections ::
  "py_text \<Rightarrow> (string \<Rightarrow> int option) \<Rightarrow> database \<Rightarrow> run_state \<Rightarrow> string list
     \<Rightarrow> py_error + run_state" where
  "run_elections py try_cast db st [] = Inr st"
| "run_elections py try_cast db st (p # ps) =
     (case election_step py try_cast db st p of
        Inl e \<Rightarrow> Inl e
      | Inr st' \<Rightarrow> run_elections py try_cast db st' ps)"

text \<open>The final \<^verbatim>\<open>ORDER BY\<close> over the seven key columns, and the combined table it writes.\<close>

definition order_by_key ::
  "turnout_row \<Rightarrow>
     (nat \<times> string) \<times> (nat \<times> string) \<times> (nat \<times> string) \<times> (nat \<times> string) \<times>
     (nat \<times> string) \<times> (nat \<times> string) \<times> (nat \<times> string)" where
  "order_by_key t =
     (nulls_last (election_date (t_key t)), nulls_last (county_desc (t_key t)),
      nulls_last (party_cd (t_key t)), nulls_last (race_code (t_key t)),
      nulls_last (ethnic_code (t_key t)), nulls_last (sex_code (t_key t)),
      nulls_last (age_group (t_key t)))"

definition combined_csv :: "run_state \<Rightarrow> turnout_row list" where
  "combined_csv st = sort_key order_by_key (turnout_all st)"

record outputs =
  out_csv :: "turnout_row list"
  qa_summary_all :: "qa_row list"
  stdout :: "log_line list"

text \<open>
  The two exports. The combined table is written first. The QA rows are then inserted with
  \<^verbatim>\<open>con.executemany\<close>, which raises on an empty list of rows, as when every file was skipped.
\<close>

definition export_all :: "run_state \<Rightarrow> py_error + outputs" where
  "export_all st =
     (if qa_rows st = [] then Inl InvalidInputException
      else Inr \<lparr>out_csv = combined_csv st,
                qa_summary_all = qa_rows st,
                stdout = printed st @ [Ok_wrote_combined, Ok_wrote_qa]\<rparr>)"

text \<open>
  \<^verbatim>\<open>main\<close>: \<open>globbed\<close> is what \<^verbatim>\<open>glob.glob\<close> returned, in any order. The exit on an empty list
  comes first, before the tables are loaded and before the loop; its message, which quotes
  the glob pattern in the script, is cut short here. \<open>db\<close> holds the tables as loaded.
\<close>

definition main_all ::
  "py_text \<Rightarrow> (string \<Rightarrow> int option) \<Rightarrow> database \<Rightarrow> string list \<Rightarrow> py_error + outputs" where
  "main_all py try_cast db globbed =
     (if sort globbed = [] then Inl (SystemExit ''No voter_stats files found'')
      else (case run_elections py try_cast db \<lparr>turnout_all = [], qa_rows = [], printed = []\<rparr>
                   (sort globbed) of
              Inl e \<Rightarrow> Inl e
            | Inr st \<Rightarrow> export_all st))"

section \<open>The built-ins on ASCII text\<close>

text \<open>
  For running the examples, all of whose file names and numbers are ASCII: there a
  character is a byte, \<^verbatim>\<open>len\<close> is the length, \<^verbatim>\<open>s[a:b]\<close> is \<open>take (b - a) (drop a s)\<close>, and
  \<^verbatim>\<open>isdigit\<close> and \<^verbatim>\<open>int\<close> are about the digits \<^verbatim>\<open>0\<close> to \<^verbatim>\<open>9\<close>.
\<close>

definition is_ascii_digit :: "char \<Rightarrow> bool" where
  "is_ascii_digit c = (CHR ''0'' \<le> c \<and> c \<le> CHR ''9'')"

definition ascii_isdigit :: "string \<Rightarrow> bool" where
  "ascii_isdigit s = (s \<noteq> [] \<and> list_all is_ascii_digit s)"

definition digit_val :: "char \<Rightarrow> int" where
  "digit_val c = int (of_char c) - 48"

text \<open>\<^verbatim>\<open>int(s)\<close> on a string of decimal digits; any other string is \<^verbatim>\<open>ValueError\<close> here.\<close>

definition ascii_int :: "string \<Rightarrow> py_error + int" where
  "ascii_int s =
     (if ascii_isdigit s then Inr (foldl (\<lambda>a c. 10 * a + digit_val c) 0 s) else Inl ValueError)"

definition ascii_text :: py_text where
  "ascii_text =
     \<lparr>py_len = length, py_isdigit = ascii_isdigit,
      py_slice = (\<lambda>s a b. take (b - a) (drop a s)), py_int = ascii_int\<rparr>"

text \<open>
  A cast for running the examples: DuckDB's \<^verbatim>\<open>TRY_CAST(s AS INTEGER)\<close> on a plain decimal
  numeral with an optional sign, \<^verbatim>\<open>NULL\<close> outside the 32-bit range.
\<close>

definition try_cast_integer :: "string \<Rightarrow> int option" where
  "try_cast_integer s =
     (case s of
        [] \<Rightarrow> None
      | c # cs \<Rightarrow>
          (case (if c = CHR ''-'' then map_sum id uminus (ascii_int cs)
                 else if c = CHR ''+'' then ascii_int cs
                 else ascii_int s) of
             Inl e \<Rightarrow> None
           | Inr n \<Rightarrow> if - 2147483648 \<le> n \<and> n \<le> 2147483647 then Some n else None))"

section \<open>Example tables\<close>

text \<open>Small tables on which the theorems below are run.\<close>

definition example_wake_key :: bucket_key where
  "example_wake_key =
     \<lparr>election_date = Some ''2025-11-04'', county_desc = Some ''WAKE'', party_cd = Some ''DEM'',
      race_code = Some ''W'', ethnic_code = Some ''NL'', sex_code = Some ''F'',
      age_group = Some ''Age 41 - 65''\<rparr>"

definition example_denominator :: "denominator_row list" where
  "example_denominator =
     [\<lparr>d_key = example_wake_key, registered_count = 4\<rparr>,
      \<lparr>d_key = example_wake_key\<lparr>county_desc := Some ''DURHAM''\<rparr>, registered_count = 0\<rparr>]"

definition example_with_age :: "voted_with_age_row list" where
  "example_with_age =
     [\<lparr>w_county_desc = Some ''WAKE'', w_party_cd = Some ''DEM'', w_race_code = Some ''W'',
       w_ethnic_code = Some ''NL'', w_sex_code = Some ''F'', w_age_group = Some ''Age 41 - 65''\<rparr>]"

definition example_registry :: "ncvoter_attrs_row list" where
  "example_registry =
     [\<lparr>a_ncid = ''A1'', reg_county_desc = Some ''WAKE'', a_party_cd = Some ''DEM'',
       a_race_code = Some ''W'', a_ethnic_code = Some ''NL'', a_sex_code = Some ''F'',
       a_birth_year = Some ''1980''\<rparr>]"

definition example_voted_ncids :: "voted_ncid_row list" where
  "example_voted_ncids =
     [\<lparr>voted_county_desc = Some ''DURHAM'', v_ncid = ''A1''\<rparr>,
      \<lparr>voted_county_desc = Some ''WAKE'', v_ncid = ''B2''\<rparr>]"

definition example_vote_log :: "ncvhis_row list" where
  "example_vote_log =
     [\<lparr>h_county_desc = Some ''WAKE'', h_election_lbl = ''11/04/2025'', h_ncid = ''A1''\<rparr>,
      \<lparr>h_county_desc = Some ''DURHAM'', h_election_lbl = ''11/04/2025'', h_ncid = ''A1''\<rparr>,
      \<lparr>h_county_desc = None, h_election_lbl = ''11/04/2025'', h_ncid = ''B2''\<rparr>,
      \<lparr>h_county_desc = Some ''DURHAM'', h_election_lbl = ''11/04/2025'', h_ncid = ''A1''\<rparr>]"

definition example_vote_log_reordered :: "ncvhis_row list" where
  "example_vote_log_reordered =
     [\<lparr>h_county_desc = Some ''DURHAM'', h_election_lbl = ''11/04/2025'', h_ncid = ''A1''\<rparr>,
      \<lparr>h_county_desc = None, h_election_lbl = ''11/04/2025'', h_ncid = ''B2''\<rparr>,
      \<lparr>h_county_desc = Some ''WAKE'', h_election_lbl = ''11/04/2025'', h_ncid = ''A1''\<rparr>]"

text \<open>The end-to-end scenario: two vote events of voter \<^verbatim>\<open>A1\<close>, one registry entry, one census row.\<close>

definition scenario_log :: "ncvhis_row list" where
  "scenario_log =
     [\<lparr>h_county_desc = Some ''WAKE'', h_election_lbl = ''11/04/2025'', h_ncid = ''A1''\<rparr>,
      \<lparr>h_county_desc = Some ''DURHAM'', h_election_lbl = ''11/04/2025'', h_ncid = ''A1''\<rparr>]"

definition scenario_registry ::
  "varchar \<Rightarrow> varchar \<Rightarrow> varchar \<Rightarrow> varchar \<Rightarrow> ncvoter_attrs_row list" where
  "scenario_registry party race ethnic sex =
     [\<lparr>a_ncid = ''A1'', reg_county_desc = Some ''WAKE'', a_party_cd = party,
       a_race_code = race, a_ethnic_code = ethnic, a_sex_code = sex,
       a_birth_year = Some ''1980''\<rparr>]"

definition scenario_census :: "voter_stats_raw_row list" where
  "scenario_census =
     [\<lparr>s_county_desc = Some ''WAKE'', election_date_raw = Some ''11/04/2025'',
       stats_type = Some ''voter'', s_party_cd = Some ''DEM'', s_race_code = Some ''W'',
       s_ethnic_code = Some ''NL'', s_sex_code = Some ''F'',
       s_age_group = Some ''Age 41 - 65'', total_voters = 4\<rparr>]"

definition scenario_db :: database where
  "scenario_db =
     \<lparr>ncvhis_raw = scenario_log,
      ncvoter_attrs = scenario_registry (Some ''DEM'') (Some ''W'') (Some ''NL'') (Some ''F''),
      voter_stats_raw = (\<lambda>p. scenario_census)\<rparr>"

section \<open>What the loop does with one census file\<close>







text \<open>
  The claim's reading of a census file name: \<^verbatim>\<open>voter_stats_\<close> followed by eight digits.
\<close>

definition carries_date_token :: "string \<Rightarrow> bool" where
  "carries_date_token base =
     (take 12 base = ''voter_stats_'' \<and> length (take 8 (drop 12 base)) = 8 \<and>
      list_all is_ascii_digit (take 8 (drop 12 base)))"


text \<open>The scenario with a census that lacks the voter's bucket.\<close>

definition unmatched_census :: "voter_stats_raw_row list" where
  "unmatched_census =
     [\<lparr>s_county_desc = Some ''WAKE'', election_date_raw = Some ''11/04/2025'',
       stats_type = Some ''voter'', s_party_cd = Some ''DEM'', s_race_code = Some ''W'',
       s_ethnic_code = Some ''NL'', s_sex_code = Some ''F'',
       s_age_group = Some ''Age 26 - 40'', total_voters = 4\<rparr>]"

definition unmatched_db :: database where
  "unmatched_db =
     \<lparr>ncvhis_raw = scenario_log,
      ncvoter_attrs = scenario_registry (Some ''DEM'') (Some ''W'') (Some ''NL'') (Some ''F''),
      voter_stats_raw = (\<lambda>p. unmatched_census)\<rparr>"


section \<open>The age bucketizer\<close>

lemma age_group_case_labels:
  "age_group_case tc yr birth_year \<in>
     {''Age < 18 Or Invalid Birth Dates'', ''Age 18 - 25'', ''Age 26 - 40'', ''Age 41 - 65'',
      ''Age Over 66''}"
  by (simp add: age_group_case_def split: option.split)

lemma age_group_case_invalid:
  "(age_group_case tc yr birth_year = ''Age < 18 Or Invalid Birth Dates'') =
     (birth_year = None \<or>
      (\<exists>b. birth_year = Some b \<and>
         (length (sql_trim b) = 0 \<or> tc (sql_trim b) = None \<or>
          (\<exists>y. tc (sql_trim b) = Some y \<and> yr - y < 18))))"
  by (auto simp: age_group_case_def split: option.split)

lemma age_group_case_18_25:
  "(age_group_case tc yr birth_year = ''Age 18 - 25'') =
     (\<exists>b y. birth_year = Some b \<and> length (sql_trim b) \<noteq> 0 \<and> tc (sql_trim b) = Some y \<and>
        18 \<le> yr - y \<and> yr - y \<le> 25)"
  by (auto simp: age_group_case_def split: option.split)

lemma age_group_case_26_40:
  "(age_group_case tc yr birth_year = ''Age 26 - 40'') =
     (\<exists>b y. birth_year = Some b \<and> length (sql_trim b) \<noteq> 0 \<and> tc (sql_trim b) = Some y \<and>
        26 \<le> yr - y \<and> yr - y \<le> 40)"
  by (auto simp: age_group_case_def split: option.split)

lemma age_group_case_41_65:
  "(age_group_case tc yr birth_year = ''Age 41 - 65'') =
     (\<exists>b y. birth_year = Some b \<and> length (sql_trim b) \<noteq> 0 \<and> tc (sql_trim b) = Some y \<and>
        41 \<le> yr - y \<and> yr - y \<le> 65)"
  by (auto simp: age_group_case_def split: option.split)

lemma age_group_case_over:
  "(age_group_case tc yr birth_year = ''Age Over 66'') =
     (\<exists>b y. birth_year = Some b \<and> length (sql_trim b) \<noteq> 0 \<and> tc (sql_trim b) = Some y \<and>
        65 < yr - y)"
  by (auto simp: age_group_case_def split: option.split)

lemma age_group_case_2025:
  "age_group_case try_cast_integer 2025 (Some ''2007'') = ''Age 18 - 25''"
  "age_group_case try_cast_integer 2025 (Some ''2008'') = ''Age < 18 Or Invalid Birth Dates''"
  "age_group_case try_cast_integer 2025 (Some ''1959'') = ''Age Over 66''"
  "age_group_case try_cast_integer 2025 (Some ''1960'') = ''Age 41 - 65''"
  "age_group_case try_cast_integer 2025 None = ''Age < 18 Or Invalid Birth Dates''"
  by code_simp+

text \<open>
  C3. The \<^verbatim>\<open>CASE\<close> of \<^verbatim>\<open>voted_with_age\<close> returns one of the five labels, whatever the cast,
  the election year and the birth-year column are. Each label is returned exactly under
  its condition, in the stated precedence: the invalid label for a \<^verbatim>\<open>NULL\<close>, blank or
  uncastable birth year and for an age under 18; then ages 18 to 25, 26 to 40, 41 to 65;
  the last label for an age over 65. For election year 2025: 2007 gives
  \<^verbatim>\<open>Age 18 - 25\<close>, 2008 the invalid label, 1959 \<^verbatim>\<open>Age Over 66\<close>, 1960 \<^verbatim>\<open>Age 41 - 65\<close>, and
  \<^verbatim>\<open>NULL\<close> the invalid label.
\<close>

theorem age_bucketizer_precedence_and_boundaries:
  "age_group_case tc yr birth_year \<in>
     {''Age < 18 Or Invalid Birth Dates'', ''Age 18 - 25'', ''Age 26 - 40'', ''Age 41 - 65'',
      ''Age Over 66''}
   \<and> (age_group_case tc yr birth_year = ''Age < 18 Or Invalid Birth Dates'') =
       (birth_year = None \<or>
        (\<exists>b. birth_year = Some b \<and>
           (length (sql_trim b) = 0 \<or> tc (sql_trim b) = None \<or>
            (\<exists>y. tc (sql_trim b) = Some y \<and> yr - y < 18))))
   \<and> (age_group_case tc yr birth_year = ''Age 18 - 25'') =
       (\<exists>b y. birth_year = Some b \<and> length (sql_trim b) \<noteq> 0 \<and> tc (sql_trim b) = Some y \<and>
          18 \<le> yr - y \<and> yr - y \<le> 25)
   \<and> (age_group_case tc yr birth_year = ''Age 26 - 40'') =
       (\<exists>b y. birth_year = Some b \<and> length (sql_trim b) \<noteq> 0 \<and> tc (sql_trim b) = Some y \<and>
          26 \<le> yr - y \<and> yr - y \<le> 40)
   \<and> (age_group_case tc yr birth_year = ''Age 41 - 65'') =
       (\<exists>b y. birth_year = Some b \<and> length (sql_trim b) \<noteq> 0 \<and> tc (sql_trim b) = Some y \<and>
          41 \<le> yr - y \<and> yr - y \<le> 65)
   \<and> (age_group_case tc yr birth_year = ''Age Over 66'') =
       (\<exists>b y. birth_year = Some b \<and> length (sql_trim b) \<noteq> 0 \<and> tc (sql_trim b) = Some y \<and>
          65 < yr - y)
   \<and> age_group_case try_cast_integer 2025 (Some ''2007'') = ''Age 18 - 25''
   \<and> age_group_case try_cast_integer 2025 (Some ''2008'') = ''Age < 18 Or Invalid Birth Dates''
   \<and> age_group_case try_cast_integer 2025 (Some ''1959'') = ''Age Over 66''
   \<and> age_group_case try_cast_integer 2025 (Some ''1960'') = ''Age 41 - 65''
   \<and> age_group_case try_cast_integer 2025 None = ''Age < 18 Or Invalid Birth Dates''"
  using age_group_case_labels [of tc yr birth_year] age_group_case_invalid [of tc yr birth_year]
    age_group_case_18_25 [of tc yr birth_year] age_group_case_26_40 [of tc yr birth_year]
    age_group_case_41_65 [of tc yr birth_year] age_group_case_over [of tc yr birth_year]
    age_group_case_2025
  by blast

section \<open>Joins, groups and the reconciler\<close>

lemma left_join_Nil: "left_join c [] ys = []"
  by (simp add: left_join_def)

lemma left_join_Cons:
  "left_join c (x # xs) ys =
     (if filter (c x) ys = [] then [(x, None)] else map (\<lambda>y. (x, Some y)) (filter (c x) ys))
     @ left_join c xs ys"
  by (simp add: left_join_def)

lemma left_join_append:
  "left_join c (xs @ xs') ys = left_join c xs ys @ left_join c xs' ys"
  by (simp add: left_join_def)

lemma in_left_join:
  "((x, m) \<in> set (left_join c xs ys)) =
     (x \<in> set xs \<and>
      (case m of None \<Rightarrow> filter (c x) ys = [] | Some y \<Rightarrow> y \<in> set ys \<and> c x y))"
  by (induction xs) (auto simp: left_join_Nil left_join_Cons filter_empty_conv split: option.splits)

lemma turnout_of_null_law:
  "(turnout_rate (turnout_of p) = None) = (t_registered_count (turnout_of p) = 0)"
  by (cases p) (simp add: turnout_of_def sql_div_def)

lemma turnout_of_rate:
  "t_registered_count (turnout_of p) \<noteq> 0 \<Longrightarrow>
     turnout_rate (turnout_of p) =
       Some (of_int (t_voted_count (turnout_of p)) / of_int (t_registered_count (turnout_of p)))"
  by (cases p) (simp add: turnout_of_def sql_div_def)

lemma in_turnout_buckets:
  "(t \<in> set (turnout_buckets den agg)) =
     (\<exists>d m. t = turnout_of (d, m) \<and> d \<in> set den \<and>
        (case m of None \<Rightarrow> filter (\<lambda>v. key_match (d_key d) (n_key v)) agg = []
         | Some v \<Rightarrow> v \<in> set agg \<and> key_match (d_key d) (n_key v)))"
  unfolding turnout_buckets_def set_map image_iff
  by (auto simp: in_left_join) blast

lemma turnout_null_law:
  "t \<in> set (turnout_buckets den agg) \<Longrightarrow> (turnout_rate t = None) = (t_registered_count t = 0)"
  by (auto simp: in_turnout_buckets turnout_of_null_law)

lemma turnout_rate_value:
  "t \<in> set (turnout_buckets den agg) \<Longrightarrow> t_registered_count t \<noteq> 0 \<Longrightarrow>
     turnout_rate t = Some (of_int (t_voted_count t) / of_int (t_registered_count t))"
  by (auto simp: in_turnout_buckets turnout_of_rate)

lemma denominator_retained:
  "d \<in> set den \<Longrightarrow>
     \<exists>t \<in> set (turnout_buckets den agg).
        t_key t = d_key d \<and> t_registered_count t = registered_count d"
proof -
  assume d: "d \<in> set den"
  show ?thesis
  proof (cases "filter (\<lambda>v. key_match (d_key d) (n_key v)) agg")
    case Nil
    then have "turnout_of (d, None) \<in> set (turnout_buckets den agg)"
      using d unfolding in_turnout_buckets by (intro exI [of _ d] exI [of _ None]) simp
    then show ?thesis by (rule bexI [rotated]) (simp add: turnout_of_def)
  next
    case (Cons v vs)
    then have "v \<in> set (filter (\<lambda>v. key_match (d_key d) (n_key v)) agg)" by simp
    then have "turnout_of (d, Some v) \<in> set (turnout_buckets den agg)"
      using d unfolding in_turnout_buckets by (intro exI [of _ d] exI [of _ "Some v"]) simp
    then show ?thesis by (rule bexI [rotated]) (simp add: turnout_of_def)
  qed
qed

lemma voted_count_default:
  "t \<in> set (turnout_buckets den agg) \<Longrightarrow>
     (if \<exists>v \<in> set agg. key_match (t_key t) (n_key v)
      then \<exists>v \<in> set agg. key_match (t_key t) (n_key v) \<and> t_voted_count t = voted_count v
      else t_voted_count t = 0)"
  by (auto simp: in_turnout_buckets turnout_of_def filter_empty_conv split: option.splits)


lemma sql_true_and: "sql_true (sql_and p q) = (sql_true p \<and> sql_true q)"
  by (auto simp: sql_true_def sql_and_def)

lemma sql_true_eq: "sql_true (sql_eq a b) = (a \<noteq> None \<and> a = b)"
  by (cases a; cases b) (auto simp: sql_true_def sql_eq_def)

lemma sql_true_neq: "sql_true (sql_neq a b) = (\<exists>x y. a = Some x \<and> b = Some y \<and> x \<noteq> y)"
  by (cases a; cases b) (auto simp: sql_true_def sql_neq_def)

lemma sql_true_is_not_null: "sql_true (is_not_null a) = (a \<noteq> None)"
  by (simp add: sql_true_def is_not_null_def)

lemma key_match_iff:
  "key_match d v =
     (d = v \<and> election_date d \<noteq> None \<and> county_desc d \<noteq> None \<and> party_cd d \<noteq> None \<and>
      race_code d \<noteq> None \<and> ethnic_code d \<noteq> None \<and> sex_code d \<noteq> None \<and> age_group d \<noteq> None)"
  by (cases d; cases v) (auto simp: key_match_def sql_true_and sql_true_eq)

lemma key_match_eq: "key_match d v \<Longrightarrow> d = v"
  by (simp add: key_match_iff)

lemma map_fst_group_by: "map fst (group_by key rows) = remdups (map key rows)"
  by (simp add: group_by_def comp_def)

lemma in_group_by:
  "((k, part) \<in> set (group_by key rows)) =
     (k \<in> key ` set rows \<and> part = filter (\<lambda>r. key r = k) rows)"
  by (auto simp: group_by_def)

lemma voted_aggregated_keys:
  "map n_key (voted_aggregated election_iso wa) = remdups (map (numerator_key election_iso) wa)"
  by (simp add: voted_aggregated_def group_by_def comp_def)

lemma distinct_voted_aggregated: "distinct (map n_key (voted_aggregated election_iso wa))"
  by (simp add: voted_aggregated_keys)

lemma denominator_keys:
  "distinct (map d_key (voter_stats_denominator election_iso mm raw))"
  by (simp add: voter_stats_denominator_def group_by_def comp_def)

lemma filter_distinct_key:
  "distinct (map f xs) \<Longrightarrow> (\<And>x. P x \<Longrightarrow> f x = k) \<Longrightarrow> length (filter P xs) \<le> 1"
proof (induction xs)
  case Nil
  then show ?case by simp
next
  case (Cons a xs)
  show ?case
  proof (cases "P a")
    case True
    then have "f a = k" by (rule Cons.prems)
    have "\<not> P x" if "x \<in> set xs" for x
    proof
      assume "P x"
      then have "f x = k" by (rule Cons.prems)
      moreover from Cons.prems(1) have "f a \<notin> f ` set xs" by simp
      ultimately show False using \<open>f a = k\<close> that by (metis imageI)
    qed
    then have "filter P xs = []"
      by (simp add: filter_empty_conv)
    then show ?thesis by simp
  next
    case False
    then show ?thesis using Cons by simp
  qed
qed

lemma left_join_at_most_one:
  assumes "\<And>x. x \<in> set xs \<Longrightarrow> length (filter (c x) ys) \<le> 1"
  shows "map fst (left_join c xs ys) = xs"
  using assms
proof (induction xs)
  case Nil
  show ?case by (simp add: left_join_Nil)
next
  case (Cons a xs)
  have "length (filter (c a) ys) \<le> 1" by (rule Cons.prems) simp
  then have "filter (c a) ys = [] \<or> (\<exists>y. filter (c a) ys = [y])"
    by (cases "filter (c a) ys") (auto simp: le_Suc_eq)
  moreover have "map fst (left_join c xs ys) = xs"
    by (rule Cons.IH, rule Cons.prems) simp
  ultimately show ?case by (auto simp: left_join_Cons)
qed

lemma turnout_buckets_keys:
  assumes "distinct (map n_key agg)"
  shows "map (\<lambda>t. (t_key t, t_registered_count t)) (turnout_buckets den agg) =
         map (\<lambda>d. (d_key d, registered_count d)) den"
proof -
  have one: "length (filter (\<lambda>v. key_match (d_key d) (n_key v)) agg) \<le> 1" for d
    using assms by (rule filter_distinct_key [where k = "d_key d"]) (simp add: key_match_iff)
  have fst: "map fst (left_join (\<lambda>d v. key_match (d_key d) (n_key v)) den agg) = den"
    by (rule left_join_at_most_one) (rule one)
  have "map (\<lambda>t. (t_key t, t_registered_count t)) (turnout_buckets den agg) =
        map (\<lambda>d. (d_key d, registered_count d))
          (map fst (left_join (\<lambda>d v. key_match (d_key d) (n_key v)) den agg))"
    by (simp add: turnout_buckets_def turnout_of_def comp_def split_def)
  then show ?thesis by (simp only: fst)
qed

text \<open>
  C1. In \<^verbatim>\<open>turnout_buckets\<close>, whatever the denominator and numerator tables are: the rate of
  a row is \<^verbatim>\<open>NULL\<close> exactly when its registered count is 0; otherwise (so in particular when
  the count is positive) it is the voted count over the registered count; the voted count
  is the matching numerator bucket's, and 0 when no numerator bucket matches. Every
  denominator bucket has a row, and against the aggregated numerator the rows are the
  denominator's buckets one for one, in order.
\<close>

theorem turnout_null_law_and_retention:
  "(\<forall>t \<in> set (turnout_buckets den agg).
      (turnout_rate t = None) = (t_registered_count t = 0) \<and>
      (t_registered_count t \<noteq> 0 \<longrightarrow>
         turnout_rate t = Some (of_int (t_voted_count t) / of_int (t_registered_count t))) \<and>
      (if \<exists>v \<in> set agg. key_match (t_key t) (n_key v)
       then \<exists>v \<in> set agg. key_match (t_key t) (n_key v) \<and> t_voted_count t = voted_count v
       else t_voted_count t = 0))
   \<and> (\<forall>d \<in> set den. \<exists>t \<in> set (turnout_buckets den agg).
         t_key t = d_key d \<and> t_registered_count t = registered_count d)
   \<and> map (\<lambda>t. (t_key t, t_registered_count t)) (turnout_buckets den (voted_aggregated election_iso wa)) =
       map (\<lambda>d. (d_key d, registered_count d)) den"
  using turnout_null_law [of _ den agg] turnout_rate_value [of _ den agg]
    voted_count_default [of _ den agg] denominator_retained [of _ den agg]
    turnout_buckets_keys [OF distinct_voted_aggregated, of den election_iso wa]
  by blast

lemma example_turnout:
  "turnout_buckets example_denominator (voted_aggregated ''2025-11-04'' example_with_age) =
     [\<lparr>t_key = example_wake_key, t_registered_count = 4, t_voted_count = 1,
       turnout_rate = Some (1 / 4)\<rparr>,
      \<lparr>t_key = example_wake_key\<lparr>county_desc := Some ''DURHAM''\<rparr>, t_registered_count = 0,
       t_voted_count = 0, turnout_rate = None\<rparr>]"
  by (simp add: turnout_buckets_def voted_aggregated_def group_by_def left_join_def
      example_denominator_def example_with_age_def example_wake_key_def numerator_key_def
      key_match_iff turnout_of_def sql_div_def)

theorem turnout_null_law_and_retention_witness:
  "turnout_buckets example_denominator (voted_aggregated ''2025-11-04'' example_with_age) =
     [\<lparr>t_key = example_wake_key, t_registered_count = 4, t_voted_count = 1,
       turnout_rate = Some (1 / 4)\<rparr>,
      \<lparr>t_key = example_wake_key\<lparr>county_desc := Some ''DURHAM''\<rparr>, t_registered_count = 0,
       t_voted_count = 0, turnout_rate = None\<rparr>]
   \<and> list_all (\<lambda>t. (turnout_rate t = None) = (t_registered_count t = 0))
       (turnout_buckets example_denominator (voted_aggregated ''2025-11-04'' example_with_age))
   \<and> map t_key (turnout_buckets example_denominator
         (voted_aggregated ''2025-11-04'' example_with_age)) = map d_key example_denominator"
proof -
  note inst = turnout_null_law_and_retention [of example_denominator
      "voted_aggregated ''2025-11-04'' example_with_age" "''2025-11-04''" example_with_age]
  have "list_all (\<lambda>t. (turnout_rate t = None) = (t_registered_count t = 0))
       (turnout_buckets example_denominator (voted_aggregated ''2025-11-04'' example_with_age))"
    using inst unfolding list_all_iff by blast
  moreover have "map t_key (turnout_buckets example_denominator
         (voted_aggregated ''2025-11-04'' example_with_age)) = map d_key example_denominator"
    using inst unfolding example_turnout by (simp add: example_denominator_def)
  ultimately show ?thesis using example_turnout by simp
qed

section \<open>The attribute join and its QA counts\<close>

lemma county_mismatches_alt:
  "county_mismatches vj =
     int (length (filter (\<lambda>r. \<exists>a b. j_voted_county_desc r = Some a \<and>
                                 j_reg_county_desc r = Some b \<and> a \<noteq> b) vj))"
proof -
  have eq: "(\<lambda>r. sql_true (sql_and (is_not_null (j_reg_county_desc r))
                (sql_neq (j_voted_county_desc r) (j_reg_county_desc r)))) =
        (\<lambda>r. \<exists>a b. j_voted_county_desc r = Some a \<and> j_reg_county_desc r = Some b \<and> a \<noteq> b)"
    by (auto simp: sql_true_and sql_true_neq sql_true_is_not_null)
  show ?thesis unfolding county_mismatches_def eq by (rule refl)
qed

lemma matched_rows:
  "total_voted vj - join_mismatches vj =
     int (length (filter (\<lambda>r. j_reg_county_desc r \<noteq> None) vj))"
  using sum_length_filter_compl [of "\<lambda>r. j_reg_county_desc r = None" vj]
  by (simp add: total_voted_def join_mismatches_def)

lemma county_mismatches_le:
  "county_mismatches vj \<le> total_voted vj - join_mismatches vj"
proof -
  have "length (filter (\<lambda>r. \<exists>a b. j_voted_county_desc r = Some a \<and>
                                 j_reg_county_desc r = Some b \<and> a \<noteq> b) vj)
        \<le> length (filter (\<lambda>r. j_reg_county_desc r \<noteq> None) vj)"
    by (induction vj) auto
  then show ?thesis by (simp add: county_mismatches_alt matched_rows)
qed

lemma join_mismatches_le: "0 \<le> join_mismatches vj \<and> join_mismatches vj \<le> total_voted vj"
  by (simp add: join_mismatches_def total_voted_def)

lemma qa_of_returns:
  "qa_of election_iso election_mmddyyyy vj =
     Inr \<lparr>qa_election_date = election_iso,
          qa_election_lbl = election_mmddyyyy,
          total_voted_ncids = total_voted vj,
          join_mismatches_dropped = join_mismatches vj,
          join_mismatch_rate =
            (if total_voted vj = 0 then 0
             else of_int (join_mismatches vj) / of_int (total_voted vj)),
          county_mismatches_kept = county_mismatches vj,
          county_mismatch_rate =
            (if total_voted vj - join_mismatches vj = 0 then 0
             else of_int (county_mismatches vj) / of_int (total_voted vj - join_mismatches vj))\<rparr>"
  by (simp add: qa_of_def join_mismatch_rate_of_def county_mismatch_rate_of_def py_truediv_def)

lemma in_voted_joined:
  "(r \<in> set (voted_joined vs attrs)) =
     (\<exists>v m. r = joined_row v m \<and> v \<in> set vs \<and>
        (case m of None \<Rightarrow> filter (\<lambda>a. v_ncid v = a_ncid a) attrs = []
         | Some a \<Rightarrow> a \<in> set attrs \<and> v_ncid v = a_ncid a))"
proof
  assume "r \<in> set (voted_joined vs attrs)"
  then obtain v m where "(v, m) \<in> set (left_join (\<lambda>v a. v_ncid v = a_ncid a) vs attrs)"
    and "r = joined_row v m"
    by (auto simp: voted_joined_def)
  then show "\<exists>v m. r = joined_row v m \<and> v \<in> set vs \<and>
        (case m of None \<Rightarrow> filter (\<lambda>a. v_ncid v = a_ncid a) attrs = []
         | Some a \<Rightarrow> a \<in> set attrs \<and> v_ncid v = a_ncid a)"
    unfolding in_left_join by blast
next
  assume "\<exists>v m. r = joined_row v m \<and> v \<in> set vs \<and>
        (case m of None \<Rightarrow> filter (\<lambda>a. v_ncid v = a_ncid a) attrs = []
         | Some a \<Rightarrow> a \<in> set attrs \<and> v_ncid v = a_ncid a)"
  then obtain v m where r: "r = joined_row v m"
    and vm: "(v, m) \<in> set (left_join (\<lambda>v a. v_ncid v = a_ncid a) vs attrs)"
    unfolding in_left_join by blast
  from vm have "(\<lambda>(v, m). joined_row v m) (v, m) \<in> set (voted_joined vs attrs)"
    unfolding voted_joined_def set_map by (rule imageI)
  then show "r \<in> set (voted_joined vs attrs)" by (simp add: r)
qed

lemma matched_has_registry_entry:
  "r \<in> set (voted_joined vs attrs) \<Longrightarrow> j_reg_county_desc r \<noteq> None \<Longrightarrow>
     \<exists>a \<in> set attrs. a_ncid a = j_ncid r \<and> reg_county_desc a = j_reg_county_desc r"
  by (auto simp: in_voted_joined joined_row_def split: option.splits)

lemma example_voted_joined:
  "voted_joined example_voted_ncids example_registry =
     [\<lparr>j_voted_county_desc = Some ''DURHAM'', j_reg_county_desc = Some ''WAKE'', j_ncid = ''A1'',
       j_party_cd = Some ''DEM'', j_race_code = Some ''W'', j_ethnic_code = Some ''NL'',
       j_sex_code = Some ''F'', j_birth_year = Some ''1980''\<rparr>,
      \<lparr>j_voted_county_desc = Some ''WAKE'', j_reg_county_desc = None, j_ncid = ''B2'',
       j_party_cd = None, j_race_code = None, j_ethnic_code = None,
       j_sex_code = None, j_birth_year = None\<rparr>]"
  by (simp add: voted_joined_def left_join_def joined_row_def example_voted_ncids_def
      example_registry_def)

text \<open>
  C4. The QA computation never raises: for every \<^verbatim>\<open>voted_joined\<close> table it returns the row
  whose \<^verbatim>\<open>join_mismatch_rate\<close> is \<^verbatim>\<open>join_mismatches / total_voted\<close>, and 0 when
  \<^verbatim>\<open>total_voted\<close> is 0, and whose \<^verbatim>\<open>county_mismatch_rate\<close> is
  \<^verbatim>\<open>county_mismatches / (total_voted - join_mismatches)\<close>, and 0 when that denominator is 0.
  \<^verbatim>\<open>county_mismatches\<close> counts rows whose registered county is not \<^verbatim>\<open>NULL\<close> and differs from
  the cast county; \<^verbatim>\<open>total_voted - join_mismatches\<close> is the number of rows whose registered
  county is not \<^verbatim>\<open>NULL\<close>, so \<^verbatim>\<open>county_mismatches\<close> is at most that; and each such row of the
  join comes from a registry entry of that voter.
\<close>

theorem qa_rates_and_mismatch_bounds:
  "qa_of election_iso election_mmddyyyy vj =
     Inr \<lparr>qa_election_date = election_iso,
          qa_election_lbl = election_mmddyyyy,
          total_voted_ncids = total_voted vj,
          join_mismatches_dropped = join_mismatches vj,
          join_mismatch_rate =
            (if total_voted vj = 0 then 0
             else of_int (join_mismatches vj) / of_int (total_voted vj)),
          county_mismatches_kept = county_mismatches vj,
          county_mismatch_rate =
            (if total_voted vj - join_mismatches vj = 0 then 0
             else of_int (county_mismatches vj) / of_int (total_voted vj - join_mismatches vj))\<rparr>
   \<and> county_mismatches vj =
       int (length (filter (\<lambda>r. \<exists>a b. j_voted_county_desc r = Some a \<and>
                                   j_reg_county_desc r = Some b \<and> a \<noteq> b) vj))
   \<and> total_voted vj - join_mismatches vj =
       int (length (filter (\<lambda>r. j_reg_county_desc r \<noteq> None) vj))
   \<and> 0 \<le> join_mismatches vj \<and> join_mismatches vj \<le> total_voted vj
   \<and> 0 \<le> county_mismatches vj
   \<and> county_mismatches vj \<le> total_voted vj - join_mismatches vj
   \<and> (\<forall>r \<in> set (voted_joined vs attrs).
         j_reg_county_desc r \<noteq> None \<longrightarrow>
         (\<exists>a \<in> set attrs. a_ncid a = j_ncid r \<and> reg_county_desc a = j_reg_county_desc r))"
  using qa_of_returns [of election_iso election_mmddyyyy vj] county_mismatches_alt [of vj]
    matched_rows [of vj] join_mismatches_le [of vj] county_mismatches_le [of vj]
    matched_has_registry_entry [of _ vs attrs]
  by (simp add: county_mismatches_def)

theorem qa_rates_and_mismatch_bounds_witness:
  "qa_of ''2025-11-04'' ''11/04/2025'' (voted_joined example_voted_ncids example_registry) =
     Inr \<lparr>qa_election_date = ''2025-11-04'',
          qa_election_lbl = ''11/04/2025'',
          total_voted_ncids = 2,
          join_mismatches_dropped = 1,
          join_mismatch_rate = 1 / 2,
          county_mismatches_kept = 1,
          county_mismatch_rate = 1\<rparr>
   \<and> (\<exists>r \<in> set (voted_joined example_voted_ncids example_registry).
         j_reg_county_desc r \<noteq> None \<and>
         (\<exists>a \<in> set example_registry. a_ncid a = j_ncid r \<and>
            reg_county_desc a = j_reg_county_desc r))"
proof -
  let ?vj = "voted_joined example_voted_ncids example_registry"
  note inst = qa_rates_and_mismatch_bounds [of "''2025-11-04''" "''11/04/2025''" ?vj
      example_voted_ncids example_registry]
  have counts: "total_voted ?vj = 2" "join_mismatches ?vj = 1" "county_mismatches ?vj = 1"
    unfolding example_voted_joined
    by (simp_all add: total_voted_def join_mismatches_def county_mismatches_def
        sql_true_and sql_true_neq sql_true_is_not_null)
  let ?r = "\<lparr>j_voted_county_desc = Some ''DURHAM'', j_reg_county_desc = Some ''WAKE'',
       j_ncid = ''A1'', j_party_cd = Some ''DEM'', j_race_code = Some ''W'',
       j_ethnic_code = Some ''NL'', j_sex_code = Some ''F'', j_birth_year = Some ''1980''\<rparr>"
  have first: "?r \<in> set ?vj"
    unfolding example_voted_joined by simp
  from inst have "qa_of ''2025-11-04'' ''11/04/2025'' ?vj =
     Inr \<lparr>qa_election_date = ''2025-11-04'',
          qa_election_lbl = ''11/04/2025'',
          total_voted_ncids = 2,
          join_mismatches_dropped = 1,
          join_mismatch_rate = 1 / 2,
          county_mismatches_kept = 1,
          county_mismatch_rate = 1\<rparr>"
    unfolding counts by simp
  moreover have "\<exists>r \<in> set ?vj.
         j_reg_county_desc r \<noteq> None \<and>
         (\<exists>a \<in> set example_registry. a_ncid a = j_ncid r \<and>
            reg_county_desc a = j_reg_county_desc r)"
  proof (rule bexI [OF _ first])
    from inst have "\<forall>r \<in> set ?vj. j_reg_county_desc r \<noteq> None \<longrightarrow>
         (\<exists>a \<in> set example_registry. a_ncid a = j_ncid r \<and>
            reg_county_desc a = j_reg_county_desc r)"
      by blast
    from bspec [OF this first]
    show "j_reg_county_desc ?r \<noteq> None \<and>
       (\<exists>a \<in> set example_registry. a_ncid a = j_ncid ?r \<and>
          reg_county_desc a = j_reg_county_desc ?r)"
      by simp
  qed
  ultimately show ?thesis by blast
qed

section \<open>The deduplicator\<close>

lemma nulls_last_inj: "nulls_last a = nulls_last b \<Longrightarrow> a = b"
  by (cases a; cases b) (simp_all add: nulls_last_def)

lemma nulls_last_Some_le: "(nulls_last (Some s) \<le> nulls_last (Some s')) = (s \<le> s')"
  by (simp add: nulls_last_def)

lemma nulls_last_None_greatest: "nulls_last c \<le> nulls_last None"
  by (cases c) (simp_all add: nulls_last_def less_eq_prod_def)

lemma nulls_last_None_le: "(nulls_last None \<le> nulls_last c) = (c = None)"
  by (cases c) (simp_all add: nulls_last_def less_eq_prod_def)

lemma rn_1_Nil: "rn_1 [] = []"
  by (simp add: rn_1_def)

lemma rn_1_single: "rn_1 [r] = [r]"
  by (simp add: rn_1_def)

lemma rn_1_first:
  assumes "part \<noteq> []"
  shows "\<exists>r. rn_1 part = [r] \<and> r \<in> set part \<and>
           (\<forall>r' \<in> set part. nulls_last (h_county_desc r) \<le> nulls_last (h_county_desc r'))"
proof -
  let ?k = "\<lambda>r. nulls_last (h_county_desc r)"
  from assms have "sort_key ?k part \<noteq> []"
    by (metis length_0_conv length_sort)
  then obtain x xs where xs: "sort_key ?k part = x # xs"
    by (cases "sort_key ?k part") auto
  have "sorted (map ?k (sort_key ?k part))" by (rule sorted_sort_key)
  then have "\<forall>y \<in> set (x # xs). ?k x \<le> ?k y"
    unfolding xs by auto
  moreover have "set (x # xs) = set part"
    unfolding xs [symmetric] by simp
  ultimately show ?thesis
    by (intro exI [of _ x]) (auto simp: rn_1_def xs)
qed

lemma voted_ncids_alt:
  "voted_ncids rows =
     concat (map (\<lambda>k. map dedup_row (rn_1 (filter (\<lambda>r. h_ncid r = k) rows)))
               (remdups (map h_ncid rows)))"
  by (simp add: voted_ncids_def group_by_def comp_def)

lemma concat_singletons:
  "(\<And>k. k \<in> set ks \<Longrightarrow> H k = [g k]) \<Longrightarrow> concat (map H ks) = map g ks"
  by (induction ks) simp_all

lemma partition_first:
  assumes "k \<in> h_ncid ` set rows"
  shows "\<exists>r. rn_1 (filter (\<lambda>r. h_ncid r = k) rows) = [r] \<and> r \<in> set rows \<and> h_ncid r = k \<and>
           (\<forall>r' \<in> set rows. h_ncid r' = k \<longrightarrow>
              nulls_last (h_county_desc r) \<le> nulls_last (h_county_desc r'))"
proof -
  from assms have "filter (\<lambda>r. h_ncid r = k) rows \<noteq> []"
    by (auto simp: filter_empty_conv)
  from rn_1_first [OF this] show ?thesis by auto
qed

lemma voted_ncids_ids: "map v_ncid (voted_ncids rows) = remdups (map h_ncid rows)"
proof -
  have "map v_ncid (voted_ncids rows) =
        concat (map (\<lambda>k. map v_ncid (map dedup_row (rn_1 (filter (\<lambda>r. h_ncid r = k) rows))))
                  (remdups (map h_ncid rows)))"
    by (simp add: voted_ncids_alt map_concat comp_def)
  also have "\<dots> = map (\<lambda>k. k) (remdups (map h_ncid rows))"
  proof (rule concat_singletons)
    fix k assume "k \<in> set (remdups (map h_ncid rows))"
    then have "k \<in> h_ncid ` set rows" by simp
    from partition_first [OF this]
    show "map v_ncid (map dedup_row (rn_1 (filter (\<lambda>r. h_ncid r = k) rows))) = [k]"
      by (auto simp: dedup_row_def)
  qed
  finally show ?thesis by simp
qed

lemma in_concat_map: "(v \<in> set (concat (map G ks))) = (\<exists>k \<in> set ks. v \<in> set (G k))"
  by auto

lemma in_voted_ncids:
  "(v \<in> set (voted_ncids rows)) =
     (\<exists>r \<in> set rows. v = dedup_row r \<and>
        (\<forall>r' \<in> set rows. h_ncid r' = h_ncid r \<longrightarrow>
           nulls_last (h_county_desc r) \<le> nulls_last (h_county_desc r')))"
proof
  assume "v \<in> set (voted_ncids rows)"
  then obtain k where k0: "k \<in> set (remdups (map h_ncid rows))"
    and v: "v \<in> set (map dedup_row (rn_1 (filter (\<lambda>r. h_ncid r = k) rows)))"
    unfolding voted_ncids_alt in_concat_map by blast
  from k0 have k: "k \<in> h_ncid ` set rows" by simp
  from partition_first [OF k] obtain r0 where
    r0: "rn_1 (filter (\<lambda>x. h_ncid x = k) rows) = [r0]" "r0 \<in> set rows" "h_ncid r0 = k"
    and r0min: "\<forall>r' \<in> set rows. h_ncid r' = k \<longrightarrow>
              nulls_last (h_county_desc r0) \<le> nulls_last (h_county_desc r')"
    by blast
  from v have "v = dedup_row r0" by (simp add: r0)
  with r0 r0min show "\<exists>r \<in> set rows. v = dedup_row r \<and>
        (\<forall>r' \<in> set rows. h_ncid r' = h_ncid r \<longrightarrow>
           nulls_last (h_county_desc r) \<le> nulls_last (h_county_desc r'))"
    by (intro bexI [of _ r0]) simp_all
next
  assume "\<exists>r \<in> set rows. v = dedup_row r \<and>
        (\<forall>r' \<in> set rows. h_ncid r' = h_ncid r \<longrightarrow>
           nulls_last (h_county_desc r) \<le> nulls_last (h_county_desc r'))"
  then obtain r where r: "r \<in> set rows" "v = dedup_row r"
    and rmin: "\<forall>r' \<in> set rows. h_ncid r' = h_ncid r \<longrightarrow>
           nulls_last (h_county_desc r) \<le> nulls_last (h_county_desc r')"
    by blast
  from r have k: "h_ncid r \<in> h_ncid ` set rows" by simp
  from partition_first [OF k] obtain r0 where
    r0: "rn_1 (filter (\<lambda>x. h_ncid x = h_ncid r) rows) = [r0]" "r0 \<in> set rows" "h_ncid r0 = h_ncid r"
    and r0min: "\<forall>r' \<in> set rows. h_ncid r' = h_ncid r \<longrightarrow>
              nulls_last (h_county_desc r0) \<le> nulls_last (h_county_desc r')"
    by blast
  from rmin r0 have le1: "nulls_last (h_county_desc r) \<le> nulls_last (h_county_desc r0)" by simp
  from r0min r have le2: "nulls_last (h_county_desc r0) \<le> nulls_last (h_county_desc r)"
    by simp
  from le1 le2 have "nulls_last (h_county_desc r) = nulls_last (h_county_desc r0)"
    by (rule antisym)
  then have "h_county_desc r = h_county_desc r0"
    by (rule nulls_last_inj)
  with r0 r have "v = dedup_row r0" by (simp add: dedup_row_def)
  then have vin: "v \<in> set (map dedup_row (rn_1 (filter (\<lambda>x. h_ncid x = h_ncid r) rows)))"
    by (simp add: r0)
  from k have kin: "h_ncid r \<in> set (remdups (map h_ncid rows))" by simp
  show "v \<in> set (voted_ncids rows)"
    unfolding voted_ncids_alt in_concat_map using vin kin by (rule bexI)
qed

lemma filter_distinct_self:
  "distinct (map f xs) \<Longrightarrow> x \<in> set xs \<Longrightarrow> filter (\<lambda>y. f y = f x) xs = [x]"
proof (induction xs)
  case Nil
  then show ?case by simp
next
  case (Cons a xs)
  show ?case
  proof (cases "x = a")
    case True
    from Cons.prems(1) have "f a \<notin> f ` set xs" by simp
    then have "\<forall>y \<in> set xs. f y \<noteq> f a" by (metis imageI)
    then have "filter (\<lambda>y. f y = f a) xs = []"
      by (simp add: filter_empty_conv)
    with True show ?thesis by simp
  next
    case False
    with Cons.prems have "x \<in> set xs" by simp
    moreover from this Cons.prems(1) have "f a \<noteq> f x" by auto
    ultimately show ?thesis using Cons by simp
  qed
qed

lemma voted_ncids_of_distinct:
  assumes "distinct (map v_ncid vs)"
  shows "voted_ncids (as_election_rows lbl vs) = vs"
proof -
  let ?e = "\<lambda>v. \<lparr>h_county_desc = voted_county_desc v, h_election_lbl = lbl, h_ncid = v_ncid v\<rparr>"
  have ids: "map h_ncid (as_election_rows lbl vs) = map v_ncid vs"
    by (simp add: as_election_rows_def comp_def)
  have d: "distinct (map h_ncid (map ?e vs))"
    using assms by (simp add: comp_def)
  have "voted_ncids (as_election_rows lbl vs) =
        concat (map (\<lambda>k. map dedup_row (rn_1 (filter (\<lambda>r. h_ncid r = k) (map ?e vs))))
                  (map v_ncid vs))"
    unfolding voted_ncids_alt ids using assms
    by (simp add: as_election_rows_def distinct_remdups_id)
  also have "\<dots> = concat (map (\<lambda>v. map dedup_row
                        (rn_1 (filter (\<lambda>r. h_ncid r = h_ncid (?e v)) (map ?e vs)))) vs)"
    by (simp add: comp_def)
  also have "\<dots> = map (\<lambda>v. v) vs"
  proof (rule concat_singletons)
    fix v assume "v \<in> set vs"
    then have "?e v \<in> set (map ?e vs)" by simp
    from filter_distinct_self [OF d this]
    show "map dedup_row (rn_1 (filter (\<lambda>r. h_ncid r = h_ncid (?e v)) (map ?e vs))) = [v]"
      by (simp add: rn_1_single dedup_row_def)
  qed
  finally show ?thesis by simp
qed

lemma voted_ncids_idempotent:
  "voted_ncids (as_election_rows lbl (voted_ncids rows)) = voted_ncids rows"
  by (rule voted_ncids_of_distinct) (simp add: voted_ncids_ids)

lemma example_voted_ncids_eval:
  "voted_ncids example_vote_log =
     [\<lparr>voted_county_desc = None, v_ncid = ''B2''\<rparr>,
      \<lparr>voted_county_desc = Some ''DURHAM'', v_ncid = ''A1''\<rparr>]"
  unfolding example_vote_log_def by code_simp

lemma retained_is_smallest:
  assumes "v \<in> set (voted_ncids rows)"
  shows "(\<exists>r \<in> set rows. h_ncid r = v_ncid v \<and> h_county_desc r = voted_county_desc v) \<and>
         (\<forall>r \<in> set rows. h_ncid r = v_ncid v \<longrightarrow>
            nulls_last (voted_county_desc v) \<le> nulls_last (h_county_desc r)) \<and>
         (\<forall>r \<in> set rows. \<forall>s. h_ncid r = v_ncid v \<and> h_county_desc r = Some s \<longrightarrow>
            (\<exists>s'. voted_county_desc v = Some s' \<and> s' \<le> s))"
proof -
  from assms obtain r0 where r0: "r0 \<in> set rows" "v = dedup_row r0"
    and r0min: "\<forall>r' \<in> set rows. h_ncid r' = h_ncid r0 \<longrightarrow>
           nulls_last (h_county_desc r0) \<le> nulls_last (h_county_desc r')"
    unfolding in_voted_ncids by blast
  have v: "v_ncid v = h_ncid r0" "voted_county_desc v = h_county_desc r0"
    by (simp_all add: r0 dedup_row_def)
  have "\<exists>s'. h_county_desc r0 = Some s' \<and> s' \<le> s"
    if "r \<in> set rows" "h_ncid r = h_ncid r0" "h_county_desc r = Some s" for r s
  proof -
    from r0min that have le: "nulls_last (h_county_desc r0) \<le> nulls_last (Some s)" by force
    have "h_county_desc r0 \<noteq> None"
    proof
      assume "h_county_desc r0 = None"
      with le have "nulls_last None \<le> nulls_last (Some s)" by simp
      then show False by (simp add: nulls_last_None_le)
    qed
    then obtain s' where "h_county_desc r0 = Some s'" by auto
    with le show ?thesis by (simp add: nulls_last_Some_le)
  qed
  with r0 r0min show ?thesis unfolding v by blast
qed

text \<open>
  C2. \<^verbatim>\<open>voted_ncids\<close> has exactly one row per distinct \<^verbatim>\<open>ncid\<close> of its input, so as many
  rows as the input has distinct voter ids. The retained row of a voter carries a county of
  one of that voter's input rows, first in the \<^verbatim>\<open>ORDER BY\<close> order among them: no input row
  of the voter has a lexicographically smaller county (a \<^verbatim>\<open>NULL\<close> county sorts last). Run on its
  own output, read as vote events again, the query returns that output.
\<close>

theorem deduplicator_one_row_per_voter:
  "map v_ncid (voted_ncids rows) = remdups (map h_ncid rows)
   \<and> distinct (map v_ncid (voted_ncids rows))
   \<and> length (voted_ncids rows) = card (h_ncid ` set rows)
   \<and> (\<forall>v \<in> set (voted_ncids rows).
        (\<exists>r \<in> set rows. h_ncid r = v_ncid v \<and> h_county_desc r = voted_county_desc v) \<and>
        (\<forall>r \<in> set rows. h_ncid r = v_ncid v \<longrightarrow>
           nulls_last (voted_county_desc v) \<le> nulls_last (h_county_desc r)) \<and>
        (\<forall>r \<in> set rows. \<forall>s. h_ncid r = v_ncid v \<and> h_county_desc r = Some s \<longrightarrow>
           (\<exists>s'. voted_county_desc v = Some s' \<and> s' \<le> s)))
   \<and> voted_ncids (as_election_rows lbl (voted_ncids rows)) = voted_ncids rows"
proof -
  have "length (voted_ncids rows) = length (map v_ncid (voted_ncids rows))" by simp
  also have "\<dots> = card (h_ncid ` set rows)"
    unfolding voted_ncids_ids by (simp add: length_remdups_card_conv)
  finally have "length (voted_ncids rows) = card (h_ncid ` set rows)" .
  moreover have "distinct (map v_ncid (voted_ncids rows))"
    by (simp add: voted_ncids_ids)
  ultimately show ?thesis
    using voted_ncids_ids [of rows] retained_is_smallest [of _ rows]
      voted_ncids_idempotent [of lbl rows]
    by blast
qed

theorem deduplicator_one_row_per_voter_witness:
  "voted_ncids example_vote_log =
     [\<lparr>voted_county_desc = None, v_ncid = ''B2''\<rparr>,
      \<lparr>voted_county_desc = Some ''DURHAM'', v_ncid = ''A1''\<rparr>]
   \<and> length (voted_ncids example_vote_log) = card (h_ncid ` set example_vote_log)
   \<and> voted_ncids (as_election_rows ''11/04/2025'' (voted_ncids example_vote_log)) =
       voted_ncids example_vote_log
   \<and> ''DURHAM'' \<le> ''WAKE''"
  using deduplicator_one_row_per_voter [of example_vote_log "''11/04/2025''"]
    example_voted_ncids_eval
  by simp

lemma voted_ncids_set_cong:
  assumes "set rows = set rows'"
  shows "mset (voted_ncids rows) = mset (voted_ncids rows')"
proof -
  have "set (voted_ncids rows) = set (voted_ncids rows')"
    by (rule set_eqI) (simp add: in_voted_ncids assms)
  moreover have "distinct (voted_ncids xs)" for xs
  proof -
    have "distinct (map v_ncid (voted_ncids xs))" by (simp add: voted_ncids_ids)
    then show ?thesis by (simp add: distinct_map)
  qed
  ultimately show ?thesis
    by (simp add: set_eq_iff_mset_eq_distinct)
qed

lemma tied_candidate_retained:
  assumes "r \<in> set rows"
    and "\<forall>r' \<in> set rows. h_ncid r' = h_ncid r \<longrightarrow>
           nulls_last (h_county_desc r) \<le> nulls_last (h_county_desc r')"
  shows "dedup_row r \<in> set (voted_ncids rows)"
  unfolding in_voted_ncids using assms by blast

text \<open>
  C10. Every row that can be numbered 1 in its partition (no row of the same voter sorts
  strictly before it) projects to the row \<^verbatim>\<open>voted_ncids\<close> retains; rows tied on voter and
  county project to the same pair; hence two inputs with the same set of rows, in any row
  order and multiplicity, give the same \<^verbatim>\<open>voted_ncids\<close> table.
\<close>

theorem deduplicator_deterministic:
  "(\<forall>r \<in> set rows.
      (\<forall>r' \<in> set rows. h_ncid r' = h_ncid r \<longrightarrow>
         nulls_last (h_county_desc r) \<le> nulls_last (h_county_desc r')) \<longrightarrow>
      dedup_row r \<in> set (voted_ncids rows))
   \<and> (\<forall>r \<in> set rows. \<forall>r' \<in> set rows.
         h_ncid r = h_ncid r' \<and> h_county_desc r = h_county_desc r' \<longrightarrow>
         dedup_row r = dedup_row r')
   \<and> (set rows = set rows' \<longrightarrow> mset (voted_ncids rows) = mset (voted_ncids rows'))"
  using tied_candidate_retained [of _ rows] voted_ncids_set_cong [of rows rows']
  by (simp add: dedup_row_def)

theorem deduplicator_deterministic_witness:
  "set example_vote_log = set example_vote_log_reordered
   \<and> mset (voted_ncids example_vote_log) = mset (voted_ncids example_vote_log_reordered)
   \<and> \<lparr>voted_county_desc = Some ''DURHAM'', v_ncid = ''A1''\<rparr> \<in> set (voted_ncids example_vote_log)"
proof -
  have s: "set example_vote_log = set example_vote_log_reordered"
    by (auto simp: example_vote_log_def example_vote_log_reordered_def)
  note inst = deduplicator_deterministic [of example_vote_log example_vote_log_reordered]
  from inst s have "mset (voted_ncids example_vote_log) =
      mset (voted_ncids example_vote_log_reordered)"
    by blast
  with s show ?thesis by (simp add: example_voted_ncids_eval)
qed

section \<open>Registry duplicates\<close>

lemma max_1_length: "max (Suc 0) (length xs) = (if xs = [] then Suc 0 else length xs)"
  by (cases xs) simp_all

lemma length_left_join:
  "length (left_join c xs ys) = sum_list (map (\<lambda>x. max 1 (length (filter (c x) ys))) xs)"
  by (induction xs) (simp_all add: left_join_Nil left_join_Cons max_1_length)

lemma sum_list_ge_length:
  "(\<And>x. x \<in> set xs \<Longrightarrow> 1 \<le> f x) \<Longrightarrow> length xs \<le> sum_list (map f xs)" for f :: "'a \<Rightarrow> nat"
proof (induction xs)
  case Nil
  show ?case by simp
next
  case (Cons a xs)
  have "1 \<le> f a" by (rule Cons.prems) simp
  moreover have "length xs \<le> sum_list (map f xs)"
    by (rule Cons.IH, rule Cons.prems) simp
  ultimately show ?case by simp
qed

lemma sum_list_gt_length:
  "(\<And>x. x \<in> set xs \<Longrightarrow> 1 \<le> f x) \<Longrightarrow> y \<in> set xs \<Longrightarrow> 1 < f y \<Longrightarrow>
     length xs < sum_list (map f xs)" for f :: "'a \<Rightarrow> nat"
proof (induction xs)
  case Nil
  then show ?case by simp
next
  case (Cons a xs)
  have a: "1 \<le> f a" by (rule Cons.prems) simp
  have ge: "length xs \<le> sum_list (map f xs)"
    by (rule sum_list_ge_length, rule Cons.prems) simp
  show ?case
  proof (cases "y = a")
    case True
    with Cons.prems have "1 < f a" by simp
    with ge show ?thesis by simp
  next
    case False
    with Cons.prems have "y \<in> set xs" by simp
    then have "length xs < sum_list (map f xs)"
      using Cons.prems(1,3) by (intro Cons.IH) simp_all
    with a show ?thesis by simp
  qed
qed

lemma total_voted_fan_out:
  assumes "v \<in> set vs" and "1 < length (filter (\<lambda>a. v_ncid v = a_ncid a) attrs)"
  shows "int (length vs) < total_voted (voted_joined vs attrs)"
proof -
  have "length vs < sum_list (map (\<lambda>v. max 1 (length (filter (\<lambda>a. v_ncid v = a_ncid a) attrs))) vs)"
    using assms by (intro sum_list_gt_length [where y = v]) simp_all
  then show ?thesis
    by (simp add: total_voted_def voted_joined_def length_left_join)
qed

lemma voted_joined_Cons:
  "voted_joined (v # vs) attrs =
     (if filter (\<lambda>a. v_ncid v = a_ncid a) attrs = [] then [joined_row v None]
      else map (\<lambda>a. joined_row v (Some a)) (filter (\<lambda>a. v_ncid v = a_ncid a) attrs))
     @ voted_joined vs attrs"
  by (simp add: voted_joined_def left_join_Cons comp_def)

lemma j_ncid_joined_row: "j_ncid (joined_row v m) = v_ncid v"
  by (simp add: joined_row_def)

lemma rows_of_voter:
  "length (filter (\<lambda>j. j_ncid j = n) (voted_joined vs attrs)) =
     sum_list (map (\<lambda>v. if v_ncid v = n
                         then max 1 (length (filter (\<lambda>a. v_ncid v = a_ncid a) attrs)) else 0) vs)"
proof (induction vs)
  case Nil
  show ?case by (simp add: voted_joined_def left_join_Nil)
next
  case (Cons v vs)
  show ?case
    by (simp add: voted_joined_Cons Cons.IH j_ncid_joined_row filter_map comp_def max_1_length)
qed

lemma sum_list_single:
  "distinct (map g xs) \<Longrightarrow> x \<in> set xs \<Longrightarrow>
     sum_list (map (\<lambda>y. if g y = g x then f y else 0) xs) = f x" for f :: "'a \<Rightarrow> nat"
proof (induction xs)
  case Nil
  then show ?case by simp
next
  case (Cons a xs)
  show ?case
  proof (cases "x = a")
    case True
    from Cons.prems(1) have "g a \<notin> g ` set xs" by simp
    then have "\<forall>y \<in> set xs. g y \<noteq> g a" by (metis imageI)
    then have "sum_list (map (\<lambda>y. if g y = g a then f y else 0) xs) = 0"
      by (simp add: sum_list_eq_0_iff)
    with True show ?thesis by simp
  next
    case False
    with Cons.prems have x: "x \<in> set xs" by simp
    from Cons.prems(1) have "g a \<notin> g ` set xs" by simp
    with x have "g a \<noteq> g x" by (metis imageI)
    moreover have "sum_list (map (\<lambda>y. if g y = g x then f y else 0) xs) = f x"
      using Cons.prems(1) x by (intro Cons.IH) simp_all
    ultimately show ?thesis by simp
  qed
qed

lemma rows_of_deduped_voter:
  assumes "distinct (map v_ncid vs)" and "v \<in> set vs"
  shows "length (filter (\<lambda>j. j_ncid j = v_ncid v) (voted_joined vs attrs)) =
           max 1 (length (filter (\<lambda>a. v_ncid v = a_ncid a) attrs))"
  unfolding rows_of_voter
  by (rule sum_list_single [OF assms,
        where f = "\<lambda>v. max 1 (length (filter (\<lambda>a. v_ncid v = a_ncid a) attrs))"])

lemma join_preserves_voters:
  assumes "\<And>v. v \<in> set vs \<Longrightarrow> length (filter (\<lambda>a. v_ncid v = a_ncid a) attrs) \<le> 1"
  shows "map j_ncid (voted_joined vs attrs) = map v_ncid vs"
proof -
  have "map j_ncid (voted_joined vs attrs) =
        map v_ncid (map fst (left_join (\<lambda>v a. v_ncid v = a_ncid a) vs attrs))"
    by (simp add: voted_joined_def comp_def split_def j_ncid_joined_row)
  also have "map fst (left_join (\<lambda>v a. v_ncid v = a_ncid a) vs attrs) = vs"
    by (rule left_join_at_most_one) (rule assms)
  finally show ?thesis .
qed

lemma duplicated_registry_counts_twice:
  "voted_aggregated ''2025-11-04''
     (voted_with_age try_cast_integer 2025
        (voted_clean
           (voted_joined [\<lparr>voted_county_desc = Some ''DURHAM'', v_ncid = ''A1''\<rparr>]
              (example_registry @ example_registry)))) =
     [\<lparr>n_key = example_wake_key, voted_count = 2\<rparr>]"
  unfolding example_registry_def example_wake_key_def by code_simp

text \<open>
  C9. The left join keeps one row per deduplicated vote event exactly as long as no voter
  who voted has more than one registry row: then the joined voter ids are the deduplicated
  ones, row for row. A voter with \<open>k\<close> registry rows has \<open>max 1 k\<close> joined rows, so with
  \<open>k > 1\<close> for some voter who voted \<^verbatim>\<open>total_voted\<close> exceeds the number of deduplicated vote
  events. No registry row is preferred over another: with the registry entry of a voter
  doubled, that one voter counts 2 in \<^verbatim>\<open>voted_count\<close>.
\<close>

theorem registry_duplicates_fan_out:
  "((\<forall>v \<in> set vs. length (filter (\<lambda>a. v_ncid v = a_ncid a) attrs) \<le> 1) \<longrightarrow>
      map j_ncid (voted_joined vs attrs) = map v_ncid vs \<and>
      total_voted (voted_joined vs attrs) = int (length vs))
   \<and> (\<forall>v \<in> set vs. distinct (map v_ncid vs) \<longrightarrow>
         length (filter (\<lambda>j. j_ncid j = v_ncid v) (voted_joined vs attrs)) =
           max 1 (length (filter (\<lambda>a. v_ncid v = a_ncid a) attrs)))
   \<and> (\<forall>v \<in> set vs. 1 < length (filter (\<lambda>a. v_ncid v = a_ncid a) attrs) \<longrightarrow>
         int (length vs) < total_voted (voted_joined vs attrs))
   \<and> voted_aggregated ''2025-11-04''
        (voted_with_age try_cast_integer 2025
           (voted_clean
              (voted_joined [\<lparr>voted_county_desc = Some ''DURHAM'', v_ncid = ''A1''\<rparr>]
                 (example_registry @ example_registry)))) =
        [\<lparr>n_key = example_wake_key, voted_count = 2\<rparr>]"
proof -
  have a: "map j_ncid (voted_joined vs attrs) = map v_ncid vs \<and>
      total_voted (voted_joined vs attrs) = int (length vs)"
    if h: "\<forall>v \<in> set vs. length (filter (\<lambda>a. v_ncid v = a_ncid a) attrs) \<le> 1"
  proof -
    have m: "map j_ncid (voted_joined vs attrs) = map v_ncid vs"
      by (rule join_preserves_voters) (rule bspec [OF h])
    have "length (voted_joined vs attrs) = length vs"
      using arg_cong [OF m, of length] by simp
    then show ?thesis using m by (simp add: total_voted_def)
  qed
  show ?thesis
    using a rows_of_deduped_voter [of vs _ attrs] total_voted_fan_out [of _ vs attrs]
      duplicated_registry_counts_twice
    by blast
qed

theorem registry_duplicates_fan_out_witness:
  "total_voted (voted_joined [\<lparr>voted_county_desc = Some ''DURHAM'', v_ncid = ''A1''\<rparr>]
      (example_registry @ example_registry)) = 2
   \<and> int (length [\<lparr>voted_county_desc = Some ''DURHAM'', v_ncid = ''A1''\<rparr>]) <
       total_voted (voted_joined [\<lparr>voted_county_desc = Some ''DURHAM'', v_ncid = ''A1''\<rparr>]
         (example_registry @ example_registry))
   \<and> map j_ncid (voted_joined [\<lparr>voted_county_desc = Some ''DURHAM'', v_ncid = ''A1''\<rparr>]
         example_registry) = [''A1'']"
proof -
  let ?v = "\<lparr>voted_county_desc = Some ''DURHAM'', v_ncid = ''A1''\<rparr>"
  have k2: "length (filter (\<lambda>a. v_ncid ?v = a_ncid a) (example_registry @ example_registry)) = 2"
    by (simp add: example_registry_def)
  have k1: "length (filter (\<lambda>a. v_ncid ?v = a_ncid a) example_registry) = 1"
    by (simp add: example_registry_def)
  have tv: "total_voted (voted_joined [?v] (example_registry @ example_registry)) = 2"
    using k2 by (simp add: total_voted_def voted_joined_def length_left_join)
  from registry_duplicates_fan_out [of "[?v]" "example_registry @ example_registry"] k2
  have "int (length [?v]) < total_voted (voted_joined [?v] (example_registry @ example_registry))"
    by simp
  moreover from registry_duplicates_fan_out [of "[?v]" example_registry] k1
  have "map j_ncid (voted_joined [?v] example_registry) = [''A1'']"
    by simp
  ultimately show ?thesis using tv by simp
qed

section \<open>The end-to-end scenario\<close>

lemma scenario_dedup:
  "voted_ncids (ncvhis_election ''11/04/2025'' scenario_log) =
     [\<lparr>voted_county_desc = Some ''DURHAM'', v_ncid = ''A1''\<rparr>]"
  unfolding scenario_log_def by code_simp

lemma scenario_joined:
  "voted_joined [\<lparr>voted_county_desc = Some ''DURHAM'', v_ncid = ''A1''\<rparr>]
     (scenario_registry party race ethnic sex) =
     [\<lparr>j_voted_county_desc = Some ''DURHAM'', j_reg_county_desc = Some ''WAKE'', j_ncid = ''A1'',
       j_party_cd = party, j_race_code = race, j_ethnic_code = ethnic, j_sex_code = sex,
       j_birth_year = Some ''1980''\<rparr>]"
  by (simp add: voted_joined_def left_join_def joined_row_def scenario_registry_def)

lemma scenario_counts:
  "total_voted [\<lparr>j_voted_county_desc = Some ''DURHAM'', j_reg_county_desc = Some ''WAKE'',
       j_ncid = ''A1'', j_party_cd = party, j_race_code = race, j_ethnic_code = ethnic,
       j_sex_code = sex, j_birth_year = Some ''1980''\<rparr>] = 1"
  "join_mismatches [\<lparr>j_voted_county_desc = Some ''DURHAM'', j_reg_county_desc = Some ''WAKE'',
       j_ncid = ''A1'', j_party_cd = party, j_race_code = race, j_ethnic_code = ethnic,
       j_sex_code = sex, j_birth_year = Some ''1980''\<rparr>] = 0"
  "county_mismatches [\<lparr>j_voted_county_desc = Some ''DURHAM'', j_reg_county_desc = Some ''WAKE'',
       j_ncid = ''A1'', j_party_cd = party, j_race_code = race, j_ethnic_code = ethnic,
       j_sex_code = sex, j_birth_year = Some ''1980''\<rparr>] = 1"
  by (simp_all add: total_voted_def join_mismatches_def county_mismatches_def
      sql_true_and sql_true_neq sql_true_is_not_null)

lemma scenario_age: "age_group_case try_cast_integer 2025 (Some ''1980'') = ''Age 41 - 65''"
  by code_simp

lemma scenario_iso: "mmddyyyy_to_iso ascii_text ''11/04/2025'' = Inr ''2025-11-04''"
  by code_simp

lemma scenario_aggregated:
  "voted_aggregated ''2025-11-04''
     (voted_with_age try_cast_integer 2025
        (voted_clean
           [\<lparr>j_voted_county_desc = Some ''DURHAM'', j_reg_county_desc = Some ''WAKE'',
             j_ncid = ''A1'', j_party_cd = party, j_race_code = race, j_ethnic_code = ethnic,
             j_sex_code = sex, j_birth_year = Some ''1980''\<rparr>])) =
     [\<lparr>n_key = \<lparr>election_date = Some ''2025-11-04'', county_desc = Some ''WAKE'',
                 party_cd = party, race_code = race, ethnic_code = ethnic, sex_code = sex,
                 age_group = Some ''Age 41 - 65''\<rparr>,
       voted_count = 1\<rparr>]"
  by (simp add: voted_aggregated_def group_by_def voted_with_age_def voted_clean_def
      numerator_key_def scenario_age)

lemma bucket_county_is_registered:
  assumes "b \<in> set (voted_aggregated election_iso
              (voted_with_age tc yr (voted_clean (voted_joined vs attrs))))"
  shows "county_desc (n_key b) \<noteq> None \<and>
         (\<exists>v \<in> set vs. \<exists>a \<in> set attrs.
            v_ncid v = a_ncid a \<and> county_desc (n_key b) = reg_county_desc a)"
proof -
  from assms obtain w where w: "w \<in> set (voted_with_age tc yr (voted_clean (voted_joined vs attrs)))"
    and b: "n_key b = numerator_key election_iso w"
    by (auto simp: voted_aggregated_def group_by_def)
  from w obtain r where r: "r \<in> set (voted_joined vs attrs)" "j_reg_county_desc r \<noteq> None"
    and wr: "w_county_desc w = j_reg_county_desc r"
    by (auto simp: voted_with_age_def voted_clean_def)
  from r(1) obtain v m where vm: "r = joined_row v m" "v \<in> set vs"
    and m: "case m of None \<Rightarrow> filter (\<lambda>a. v_ncid v = a_ncid a) attrs = []
         | Some a \<Rightarrow> a \<in> set attrs \<and> v_ncid v = a_ncid a"
    unfolding in_voted_joined by blast
  from r(2) vm obtain a where a: "m = Some a"
    by (cases m) (simp_all add: joined_row_def)
  with m have "a \<in> set attrs" "v_ncid v = a_ncid a" by simp_all
  moreover have "county_desc (n_key b) = reg_county_desc a"
    by (simp add: b numerator_key_def wr vm a joined_row_def)
  moreover have "county_desc (n_key b) \<noteq> None"
    using r(2) by (simp add: b numerator_key_def wr)
  ultimately show ?thesis using vm(2) by blast
qed

lemma scenario_main:
  "main_all ascii_text try_cast_integer scenario_db [''data/raw/voter_stats/voter_stats_20251104.txt''] =
     Inr \<lparr>out_csv =
            [\<lparr>t_key = example_wake_key, t_registered_count = 4, t_voted_count = 1,
              turnout_rate = Some (1 / 4)\<rparr>],
          qa_summary_all =
            [\<lparr>qa_election_date = ''2025-11-04'', qa_election_lbl = ''11/04/2025'',
              total_voted_ncids = 1, join_mismatches_dropped = 0, join_mismatch_rate = 0,
              county_mismatches_kept = 1, county_mismatch_rate = 1\<rparr>],
          stdout =
            [Info_building ''2025-11-04'' ''voter_stats_20251104.txt'', Info_voted 1,
             Info_join_mismatches 0 0, Info_county_mismatches 1 1,
             Ok_wrote_combined, Ok_wrote_qa]\<rparr>"
  unfolding scenario_db_def scenario_census_def scenario_log_def scenario_registry_def
    example_wake_key_def
  by code_simp

text \<open>
  C6. The scenario: the log holds two rows of voter \<^verbatim>\<open>A1\<close> for election \<^verbatim>\<open>11/04/2025\<close>, cast in
  \<^verbatim>\<open>WAKE\<close> and \<^verbatim>\<open>DURHAM\<close>; the registry has \<^verbatim>\<open>A1\<close> in \<^verbatim>\<open>WAKE\<close>, born 1980, with any party, race,
  ethnicity and sex. The deduplicator keeps the \<^verbatim>\<open>DURHAM\<close> row; the join has one row, no join
  mismatch and one county mismatch; the age group is \<^verbatim>\<open>Age 41 - 65\<close>; the numerator has the one
  bucket \<^verbatim>\<open>(2025-11-04, WAKE, ..., Age 41 - 65)\<close> with count 1, and the whole driver, run on the
  census file of that date, writes that bucket with voted count 1. In general every
  numerator bucket's county is the registered county of a registry row of a voter who voted.
\<close>

theorem end_to_end_scenario:
  "voted_ncids (ncvhis_election ''11/04/2025'' scenario_log) =
     [\<lparr>voted_county_desc = Some ''DURHAM'', v_ncid = ''A1''\<rparr>]
   \<and> total_voted (voted_joined (voted_ncids (ncvhis_election ''11/04/2025'' scenario_log))
        (scenario_registry party race ethnic sex)) = 1
   \<and> join_mismatches (voted_joined (voted_ncids (ncvhis_election ''11/04/2025'' scenario_log))
        (scenario_registry party race ethnic sex)) = 0
   \<and> county_mismatches (voted_joined (voted_ncids (ncvhis_election ''11/04/2025'' scenario_log))
        (scenario_registry party race ethnic sex)) = 1
   \<and> age_group_case try_cast_integer 2025 (Some ''1980'') = ''Age 41 - 65''
   \<and> mmddyyyy_to_iso ascii_text ''11/04/2025'' = Inr ''2025-11-04''
   \<and> voted_aggregated ''2025-11-04''
        (voted_with_age try_cast_integer 2025
           (voted_clean
              (voted_joined (voted_ncids (ncvhis_election ''11/04/2025'' scenario_log))
                 (scenario_registry party race ethnic sex)))) =
       [\<lparr>n_key = \<lparr>election_date = Some ''2025-11-04'', county_desc = Some ''WAKE'',
                   party_cd = party, race_code = race, ethnic_code = ethnic, sex_code = sex,
                   age_group = Some ''Age 41 - 65''\<rparr>,
         voted_count = 1\<rparr>]
   \<and> main_all ascii_text try_cast_integer scenario_db [''data/raw/voter_stats/voter_stats_20251104.txt''] =
       Inr \<lparr>out_csv =
              [\<lparr>t_key = example_wake_key, t_registered_count = 4, t_voted_count = 1,
                turnout_rate = Some (1 / 4)\<rparr>],
            qa_summary_all =
              [\<lparr>qa_election_date = ''2025-11-04'', qa_election_lbl = ''11/04/2025'',
                total_voted_ncids = 1, join_mismatches_dropped = 0, join_mismatch_rate = 0,
                county_mismatches_kept = 1, county_mismatch_rate = 1\<rparr>],
            stdout =
              [Info_building ''2025-11-04'' ''voter_stats_20251104.txt'', Info_voted 1,
               Info_join_mismatches 0 0, Info_county_mismatches 1 1,
               Ok_wrote_combined, Ok_wrote_qa]\<rparr>
   \<and> (\<forall>b \<in> set (voted_aggregated election_iso
                    (voted_with_age tc yr (voted_clean (voted_joined vs attrs)))).
         county_desc (n_key b) \<noteq> None \<and>
         (\<exists>v \<in> set vs. \<exists>a \<in> set attrs.
            v_ncid v = a_ncid a \<and> county_desc (n_key b) = reg_county_desc a))"
  using scenario_counts [of party race ethnic sex] scenario_age scenario_iso
    scenario_aggregated [of party race ethnic sex] scenario_main
    bucket_county_is_registered [of _ election_iso tc yr vs attrs]
  unfolding scenario_dedup scenario_joined
  by blast

theorem end_to_end_scenario_witness:
  "\<lparr>n_key = example_wake_key, voted_count = 1\<rparr> \<in>
     set (voted_aggregated ''2025-11-04''
            (voted_with_age try_cast_integer 2025
               (voted_clean
                  (voted_joined [\<lparr>voted_county_desc = Some ''DURHAM'', v_ncid = ''A1''\<rparr>]
                     (scenario_registry (Some ''DEM'') (Some ''W'') (Some ''NL'') (Some ''F''))))))
   \<and> (\<exists>v \<in> set [\<lparr>voted_county_desc = Some ''DURHAM'', v_ncid = ''A1''\<rparr>].
        \<exists>a \<in> set (scenario_registry (Some ''DEM'') (Some ''W'') (Some ''NL'') (Some ''F'')).
          v_ncid v = a_ncid a \<and> Some ''WAKE'' = reg_county_desc a)"
proof -
  let ?vs = "[\<lparr>voted_county_desc = Some ''DURHAM'', v_ncid = ''A1''\<rparr>]"
  let ?reg = "scenario_registry (Some ''DEM'') (Some ''W'') (Some ''NL'') (Some ''F'')"
  let ?agg = "voted_aggregated ''2025-11-04''
            (voted_with_age try_cast_integer 2025 (voted_clean (voted_joined ?vs ?reg)))"
  have mem: "\<lparr>n_key = example_wake_key, voted_count = 1\<rparr> \<in> set ?agg"
    unfolding scenario_joined scenario_aggregated by (simp add: example_wake_key_def)
  from end_to_end_scenario [of _ _ _ _ "''2025-11-04''" try_cast_integer 2025 ?vs ?reg]
  have "\<forall>b \<in> set ?agg. county_desc (n_key b) \<noteq> None \<and>
         (\<exists>v \<in> set ?vs. \<exists>a \<in> set ?reg.
            v_ncid v = a_ncid a \<and> county_desc (n_key b) = reg_county_desc a)"
    by blast
  from bspec [OF this mem] have "\<exists>v \<in> set ?vs. \<exists>a \<in> set ?reg.
          v_ncid v = a_ncid a \<and> Some ''WAKE'' = reg_county_desc a"
    by (simp add: example_wake_key_def)
  with mem show ?thesis by blast
qed

section \<open>The multi-election loop\<close>












lemma election_step_unrecognized:
  "unrecognized py p \<Longrightarrow>
     election_step py tc db st p =
       Inr (st\<lparr>printed := printed st @ [Warn_skipping (path_name p)]\<rparr>)"
  by (simp add: election_step_def unrecognized_def)

text \<open>A token that passes the name test and that \<^verbatim>\<open>int\<close> rejects ends the run.\<close>

lemma election_step_int_raises:
  assumes "\<not> unrecognized py p"
    and "mmddyyyy_to_iso py (yyyymmdd_to_mmddyyyy py (yyyymmdd_of p)) = Inr d"
    and "py_int py (hd (py_split CHR ''-'' d)) = Inl e"
  shows "election_step py tc db st p = Inl e"
proof (cases "py_split CHR ''-'' d")
  case Nil
  then show ?thesis by (cases d) (simp_all split: if_splits list.splits)
next
  case (Cons y ys)
  with assms show ?thesis by (simp add: election_step_def unrecognized_def)
qed








lemma sort_eq_Nil: "(sort xs = []) = (xs = [])" for xs :: "string list"
  by (metis length_0_conv length_sort)


lemma scenario_with_unrecognized_file:
  "main_all ascii_text try_cast_integer scenario_db
     [''data/raw/voter_stats/voter_stats_notadate.txt'',
      ''data/raw/voter_stats/voter_stats_20251104.txt''] =
     Inr \<lparr>out_csv =
            [\<lparr>t_key = example_wake_key, t_registered_count = 4, t_voted_count = 1,
              turnout_rate = Some (1 / 4)\<rparr>],
          qa_summary_all =
            [\<lparr>qa_election_date = ''2025-11-04'', qa_election_lbl = ''11/04/2025'',
              total_voted_ncids = 1, join_mismatches_dropped = 0, join_mismatch_rate = 0,
              county_mismatches_kept = 1, county_mismatch_rate = 1\<rparr>],
          stdout =
            [Info_building ''2025-11-04'' ''voter_stats_20251104.txt'', Info_voted 1,
             Info_join_mismatches 0 0, Info_county_mismatches 1 1,
             Warn_skipping ''voter_stats_notadate.txt'',
             Ok_wrote_combined, Ok_wrote_qa]\<rparr>"
  unfolding scenario_db_def scenario_census_def scenario_log_def scenario_registry_def
    example_wake_key_def
  by code_simp

lemma malformed_name_has_no_token:
  "\<not> carries_date_token (path_name ''data/raw/voter_stats/voter_stats_2025.txt1104.txt'')
   \<and> yyyymmdd_of ''data/raw/voter_stats/voter_stats_2025.txt1104.txt'' = ''20251104''"
  by code_simp

lemma malformed_name_run:
  "main_all ascii_text try_cast_integer scenario_db
     [''data/raw/voter_stats/voter_stats_2025.txt1104.txt''] =
     Inr \<lparr>out_csv =
            [\<lparr>t_key = example_wake_key, t_registered_count = 4, t_voted_count = 1,
              turnout_rate = Some (1 / 4)\<rparr>],
          qa_summary_all =
            [\<lparr>qa_election_date = ''2025-11-04'', qa_election_lbl = ''11/04/2025'',
              total_voted_ncids = 1, join_mismatches_dropped = 0, join_mismatch_rate = 0,
              county_mismatches_kept = 1, county_mismatch_rate = 1\<rparr>],
          stdout =
            [Info_building ''2025-11-04'' ''voter_stats_2025.txt1104.txt'', Info_voted 1,
             Info_join_mismatches 0 0, Info_county_mismatches 1 1,
             Ok_wrote_combined, Ok_wrote_qa]\<rparr>"
  unfolding scenario_db_def scenario_census_def scenario_log_def scenario_registry_def
    example_wake_key_def
  by code_simp

text \<open>
  C7. With no census file found the driver exits at once, before any election; and
  \<^verbatim>\<open>voter_stats_notadate.txt\<close> is skipped with a warning, adds no row, and the file after it
  is processed. But the driver does not test for an eight-digit token after the prefix: it
  deletes every \<^verbatim>\<open>voter_stats_\<close> and then every \<^verbatim>\<open>.txt\<close> from the name and tests what is left.
  The name \<^verbatim>\<open>voter_stats_2025.txt1104.txt\<close> matches the discovery pattern and carries no
  eight-digit token after the prefix, against the form \<^verbatim>\<open>voter_stats_YYYYMMDD.txt\<close> that the
  loop's comment expects; what is left of it is \<^verbatim>\<open>20251104\<close>, so the file is not skipped: it
  is processed as the election of 2025-11-04, with no warning, and contributes a row.
\<close>

theorem malformed_census_name_is_processed:
  "main_all py tc db [] = Inl (SystemExit ''No voter_stats files found'')
   \<and> main_all ascii_text try_cast_integer scenario_db
       [''data/raw/voter_stats/voter_stats_notadate.txt'',
        ''data/raw/voter_stats/voter_stats_20251104.txt''] =
       Inr \<lparr>out_csv =
              [\<lparr>t_key = example_wake_key, t_registered_count = 4, t_voted_count = 1,
                turnout_rate = Some (1 / 4)\<rparr>],
            qa_summary_all =
              [\<lparr>qa_election_date = ''2025-11-04'', qa_election_lbl = ''11/04/2025'',
                total_voted_ncids = 1, join_mismatches_dropped = 0, join_mismatch_rate = 0,
                county_mismatches_kept = 1, county_mismatch_rate = 1\<rparr>],
            stdout =
              [Info_building ''2025-11-04'' ''voter_stats_20251104.txt'', Info_voted 1,
               Info_join_mismatches 0 0, Info_county_mismatches 1 1,
               Warn_skipping ''voter_stats_notadate.txt'',
               Ok_wrote_combined, Ok_wrote_qa]\<rparr>
   \<and> \<not> carries_date_token (path_name ''data/raw/voter_stats/voter_stats_2025.txt1104.txt'')
   \<and> yyyymmdd_of ''data/raw/voter_stats/voter_stats_2025.txt1104.txt'' = ''20251104''
   \<and> main_all ascii_text try_cast_integer scenario_db
       [''data/raw/voter_stats/voter_stats_2025.txt1104.txt''] =
       Inr \<lparr>out_csv =
              [\<lparr>t_key = example_wake_key, t_registered_count = 4, t_voted_count = 1,
                turnout_rate = Some (1 / 4)\<rparr>],
            qa_summary_all =
              [\<lparr>qa_election_date = ''2025-11-04'', qa_election_lbl = ''11/04/2025'',
                total_voted_ncids = 1, join_mismatches_dropped = 0, join_mismatch_rate = 0,
                county_mismatches_kept = 1, county_mismatch_rate = 1\<rparr>],
            stdout =
              [Info_building ''2025-11-04'' ''voter_stats_2025.txt1104.txt'', Info_voted 1,
               Info_join_mismatches 0 0, Info_county_mismatches 1 1,
               Ok_wrote_combined, Ok_wrote_qa]\<rparr>"
proof -
  have "main_all py tc db [] = Inl (SystemExit ''No voter_stats files found'')"
    by (simp add: main_all_def)
  with scenario_with_unrecognized_file malformed_name_has_no_token malformed_name_run
  show ?thesis by (simp only: simp_thms)
qed









section \<open>Conservation and the missing-denominator report\<close>

lemma turnout_voted_sum:
  "sum_list (map t_voted_count (turnout_buckets den agg)) =
     sum_list (map (\<lambda>d. sum_list (map voted_count
                 (filter (\<lambda>v. key_match (d_key d) (n_key v)) agg))) den)"
proof (induction den)
  case Nil
  show ?case by (simp add: turnout_buckets_def left_join_Nil)
next
  case (Cons d den)
  have "turnout_buckets (d # den) agg =
          (if filter (\<lambda>v. key_match (d_key d) (n_key v)) agg = [] then [turnout_of (d, None)]
           else map (\<lambda>v. turnout_of (d, Some v)) (filter (\<lambda>v. key_match (d_key d) (n_key v)) agg))
          @ turnout_buckets den agg"
    by (simp add: turnout_buckets_def left_join_Cons comp_def)
  then show ?case
    by (simp add: Cons.IH turnout_of_def comp_def)
qed

lemma sum_if_at_most_one:
  assumes "length (filter P xs) \<le> 1"
  shows "sum_list (map (\<lambda>x. if P x then c else 0) xs) = (if \<exists>x \<in> set xs. P x then c else (0::int))"
  using assms
proof (induction xs)
  case Nil
  show ?case by simp
next
  case (Cons a xs)
  show ?case
  proof (cases "P a")
    case True
    with Cons.prems have "filter P xs = []" by simp
    then have none: "\<forall>x \<in> set xs. \<not> P x" by (simp add: filter_empty_conv)
    then have "sum_list (map (\<lambda>x. if P x then c else 0) xs) = 0"
      by (induction xs) simp_all
    with True show ?thesis by simp
  next
    case False
    with Cons show ?thesis by simp
  qed
qed

lemma swap_sums:
  "sum_list (map (\<lambda>d. sum_list (map c (filter (\<lambda>v. M d v) agg))) den) =
     sum_list (map (\<lambda>v. sum_list (map (\<lambda>d. if M d v then c v else 0) den)) agg)"
  for c :: "'v \<Rightarrow> int"
proof (induction agg)
  case Nil
  show ?case by simp
next
  case (Cons v agg)
  have "sum_list (map (\<lambda>d. sum_list (map c (filter (\<lambda>v. M d v) (v # agg)))) den) =
        sum_list (map (\<lambda>d. (if M d v then c v else 0) + sum_list (map c (filter (\<lambda>v. M d v) agg))) den)"
    by (rule arg_cong [where f = sum_list]) simp
  also have "\<dots> = sum_list (map (\<lambda>d. if M d v then c v else 0) den) +
        sum_list (map (\<lambda>d. sum_list (map c (filter (\<lambda>v. M d v) agg))) den)"
    by (simp add: sum_list_addf)
  finally show ?case by (simp add: Cons.IH)
qed

lemma turnout_conservation:
  assumes "distinct (map d_key den)"
  shows "sum_list (map t_voted_count (turnout_buckets den agg)) =
         sum_list (map voted_count
           (filter (\<lambda>v. \<exists>d \<in> set den. key_match (d_key d) (n_key v)) agg))"
proof -
  have one: "length (filter (\<lambda>d. key_match (d_key d) (n_key v)) den) \<le> 1" for v
    using assms by (rule filter_distinct_key [where k = "n_key v"]) (simp add: key_match_iff)
  have "sum_list (map t_voted_count (turnout_buckets den agg)) =
        sum_list (map (\<lambda>v. sum_list (map (\<lambda>d. if key_match (d_key d) (n_key v)
                                            then voted_count v else 0) den)) agg)"
    unfolding turnout_voted_sum by (rule swap_sums)
  also have "\<dots> = sum_list (map (\<lambda>v. if \<exists>d \<in> set den. key_match (d_key d) (n_key v)
                                     then voted_count v else 0) agg)"
    by (simp add: sum_if_at_most_one [OF one])
  also have "\<dots> = sum_list (map voted_count
           (filter (\<lambda>v. \<exists>d \<in> set den. key_match (d_key d) (n_key v)) agg))"
    by (induction agg) simp_all
  finally show ?thesis .
qed

lemma missing_votes_alt:
  "missing_votes agg den =
     sql_sum (map voted_count
       (filter (\<lambda>v. \<not> (\<exists>d \<in> set den. key_match (d_key d) (n_key v))) agg))"
proof -
  have eq: "map (\<lambda>(v, m). voted_count v)
          (filter (\<lambda>(v, m). (case m of None \<Rightarrow> True | Some d \<Rightarrow> county_desc (d_key d) = None))
             (left_join (\<lambda>v d. key_match (d_key d) (n_key v)) xs den)) =
        map voted_count
          (filter (\<lambda>v. \<not> (\<exists>d \<in> set den. key_match (d_key d) (n_key v))) xs)" for xs
  proof (induction xs)
    case Nil
    show ?case by (simp add: left_join_Nil)
  next
    case (Cons v xs)
    have m: "filter (\<lambda>p. case p of (v, m) \<Rightarrow>
                 (case m of None \<Rightarrow> True | Some d \<Rightarrow> county_desc (d_key d) = None))
               (map (\<lambda>d. (v, Some d)) (filter (\<lambda>d. key_match (d_key d) (n_key v)) den)) = []"
      by (auto simp: filter_empty_conv key_match_iff)
    show ?case
    proof (cases "filter (\<lambda>d. key_match (d_key d) (n_key v)) den = []")
      case True
      then show ?thesis
        by (simp add: left_join_Cons Cons.IH filter_empty_conv)
    next
      case False
      then have "\<exists>d \<in> set den. key_match (d_key d) (n_key v)"
        by (simp add: filter_empty_conv)
      with False show ?thesis
        by (simp add: left_join_Cons Cons.IH m)
    qed
  qed
  show ?thesis unfolding missing_votes_def eq by (rule refl)
qed

lemma unmatched_numerator:
  "voted_aggregated ''2025-11-04''
     (voted_with_age try_cast_integer 2025
        (voted_clean
           (voted_joined (voted_ncids (ncvhis_election ''11/04/2025'' (ncvhis_raw unmatched_db)))
              (ncvoter_attrs unmatched_db)))) =
     [\<lparr>n_key = example_wake_key, voted_count = 1\<rparr>]"
  unfolding unmatched_db_def unmatched_census_def scenario_log_def scenario_registry_def
    example_wake_key_def
  by code_simp

lemma unmatched_missing_votes:
  "missing_votes [\<lparr>n_key = example_wake_key, voted_count = 1\<rparr>]
     (voter_stats_denominator ''2025-11-04'' ''11/04/2025'' unmatched_census) = Some 1"
  unfolding unmatched_census_def example_wake_key_def
  by code_simp

lemma unmatched_main_all:
  "main_all ascii_text try_cast_integer unmatched_db [''data/raw/voter_stats/voter_stats_20251104.txt''] =
     Inr \<lparr>out_csv =
            [\<lparr>t_key = example_wake_key\<lparr>age_group := Some ''Age 26 - 40''\<rparr>,
              t_registered_count = 4, t_voted_count = 0, turnout_rate = Some 0\<rparr>],
          qa_summary_all =
            [\<lparr>qa_election_date = ''2025-11-04'', qa_election_lbl = ''11/04/2025'',
              total_voted_ncids = 1, join_mismatches_dropped = 0, join_mismatch_rate = 0,
              county_mismatches_kept = 1, county_mismatch_rate = 1\<rparr>],
          stdout =
            [Info_building ''2025-11-04'' ''voter_stats_20251104.txt'', Info_voted 1,
             Info_join_mismatches 0 0, Info_county_mismatches 1 1,
             Ok_wrote_combined, Ok_wrote_qa]\<rparr>"
  unfolding unmatched_db_def unmatched_census_def scenario_log_def scenario_registry_def
    example_wake_key_def
  by code_simp

text \<open>
  C5. Conservation holds in both drivers: the voted counts of \<^verbatim>\<open>turnout_buckets\<close> sum to the
  voted counts of the numerator buckets that match a denominator bucket. The
  single-election driver reports the rest: its \<^verbatim>\<open>missing_votes\<close> is the sum over the numerator
  buckets with no denominator match (\<^verbatim>\<open>NULL\<close> when there are none). The multi-election driver
  has no such report. On the scenario with a census that lacks the voter's bucket the
  numerator holds one bucket with one vote and \<^verbatim>\<open>missing_votes\<close> is 1, while everything the
  multi-election driver writes and prints is the one census bucket with voted count 0, the
  QA row and the four progress lines: the unmatched bucket is named nowhere.
\<close>

theorem unmatched_numerator_buckets:
  "sum_list (map t_voted_count
      (turnout_buckets (voter_stats_denominator election_iso election_mmddyyyy raw) agg)) =
     sum_list (map voted_count
       (filter (\<lambda>v. \<exists>d \<in> set (voter_stats_denominator election_iso election_mmddyyyy raw).
                    key_match (d_key d) (n_key v)) agg))
   \<and> missing_votes agg den =
       sql_sum (map voted_count
         (filter (\<lambda>v. \<not> (\<exists>d \<in> set den. key_match (d_key d) (n_key v))) agg))
   \<and> voted_aggregated ''2025-11-04''
       (voted_with_age try_cast_integer 2025
          (voted_clean
             (voted_joined (voted_ncids (ncvhis_election ''11/04/2025'' (ncvhis_raw unmatched_db)))
                (ncvoter_attrs unmatched_db)))) =
       [\<lparr>n_key = example_wake_key, voted_count = 1\<rparr>]
   \<and> missing_votes [\<lparr>n_key = example_wake_key, voted_count = 1\<rparr>]
       (voter_stats_denominator ''2025-11-04'' ''11/04/2025'' unmatched_census) = Some 1
   \<and> main_all ascii_text try_cast_integer unmatched_db [''data/raw/voter_stats/voter_stats_20251104.txt''] =
       Inr \<lparr>out_csv =
              [\<lparr>t_key = example_wake_key\<lparr>age_group := Some ''Age 26 - 40''\<rparr>,
                t_registered_count = 4, t_voted_count = 0, turnout_rate = Some 0\<rparr>],
            qa_summary_all =
              [\<lparr>qa_election_date = ''2025-11-04'', qa_election_lbl = ''11/04/2025'',
                total_voted_ncids = 1, join_mismatches_dropped = 0, join_mismatch_rate = 0,
                county_mismatches_kept = 1, county_mismatch_rate = 1\<rparr>],
            stdout =
              [Info_building ''2025-11-04'' ''voter_stats_20251104.txt'', Info_voted 1,
               Info_join_mismatches 0 0, Info_county_mismatches 1 1,
               Ok_wrote_combined, Ok_wrote_qa]\<rparr>"
  using turnout_conservation [OF denominator_keys, of election_iso election_mmddyyyy raw agg]
    missing_votes_alt [of agg den] unmatched_numerator unmatched_missing_votes unmatched_main_all
  by (simp only: simp_thms)

end
